theory Spec2Isabelle
  imports Complex_Main "HOL-Library.Word" "HOL-Library.Signed_Division"
begin

unbundle bit_operations_syntax


section \<open>Conventions of the embedding\<close>

text \<open>
  The firmware is written in C under the "Power of 10" rules. Every function starts with
  \<^verbatim>\<open>P10_ASSERT\<close> lines and then repeats the same checks as ordinary \<^verbatim>\<open>if\<close> guards
  that return early. \<^verbatim>\<open>P10_ASSERT(cond)\<close> (types.h) calls \<^verbatim>\<open>p10_assert_fail\<close> when
  the condition is false, unless \<^verbatim>\<open>NDEBUG\<close> is defined, in which case it expands to
  nothing. \<^verbatim>\<open>p10_assert_fail\<close> does not return: on the target it triggers the emergency
  blow and halts, in the unit tests it aborts. Both builds occur in the repository (the
  unit tests compile without \<^verbatim>\<open>NDEBUG\<close>, the static-analysis build defines it).

  In state\_machine.c and pid.c an assertion is on a value that the caller supplies at run
  time: a depth, a time step, a pair of limits. There the build is a parameter, and a
  function that may end in \<^verbatim>\<open>p10_assert_fail\<close> returns \<open>Inl P10_ASSERT_FAIL\<close> instead
  of \<open>Inr\<close> of its result. The other modules are translated as they run with
  \<^verbatim>\<open>NDEBUG\<close>, by their guards: their assertions are on pointers, on constants, on
  values that the module's own functions keep in range (the indices of the event log, the
  direction and the bounds passed inside the ballast controller), and on the sensor ranges
  of \<^verbatim>\<open>safety_update_depth\<close> and \<^verbatim>\<open>safety_update_pitch\<close>. Pointer arguments are the
  records passed to and returned from each function, so the \<^verbatim>\<open>NULL\<close> assertions and
  guards have no counterpart.

  Build-time constants come from the generated \<^verbatim>\<open>config.h\<close>, whose text is in
  \<^verbatim>\<open>scripts/setup.sh\<close>.
\<close>

datatype p10_build = ASSERTS_ENABLED | NDEBUG

datatype p10_halt = P10_ASSERT_FAIL

text \<open>Whether control passes a \<^verbatim>\<open>P10_ASSERT\<close> with the given condition.\<close>

definition P10_ASSERT :: "p10_build \<Rightarrow> bool \<Rightarrow> bool" where
  "P10_ASSERT build cond = (build = NDEBUG \<or> cond)"

definition MAX_DEPTH_CM :: int where
  "MAX_DEPTH_CM = 300"

section \<open>Vehicle state machine (state\_machine.c)\<close>

datatype MainState_t =
  STATE_INIT | STATE_SURFACE | STATE_DIVING | STATE_SUBMERGED_MANUAL
  | STATE_SUBMERGED_DEPTH_HOLD | STATE_SURFACING | STATE_EMERGENCY

datatype Command_t =
  CMD_NONE | CMD_DIVE | CMD_SURFACE | CMD_DEPTH_HOLD | CMD_MANUAL | CMD_EMERGENCY

text \<open>
  \<^verbatim>\<open>StateMachine_t\<close>. \<^verbatim>\<open>target_depth_cm\<close> is an \<^verbatim>\<open>int32_t\<close> and
  \<^verbatim>\<open>ballast_target_level\<close> an \<^verbatim>\<open>int8_t\<close>; both are only stored and compared, never
  computed with, so they are integers here. \<^verbatim>\<open>state_start_ms\<close> is a \<^verbatim>\<open>uint32_t\<close>.
\<close>

record StateMachine_t =
  state :: MainState_t
  target_depth_cm :: int
  state_start_ms :: "32 word"
  ballast_target_level :: int
  depth_hold_enabled :: bool

definition SURFACE_DEPTH_CM :: int where
  "SURFACE_DEPTH_CM = 10"

definition DIVE_COMPLETE_CM :: int where
  "DIVE_COMPLETE_CM = 50"

definition state_machine_set_outputs :: "StateMachine_t \<Rightarrow> int \<Rightarrow> bool \<Rightarrow> StateMachine_t" where
  "state_machine_set_outputs sm ballast_level depth_hold =
     sm\<lparr>ballast_target_level := ballast_level, depth_hold_enabled := depth_hold\<rparr>"

definition state_machine_handle_init :: "StateMachine_t \<Rightarrow> 32 word \<Rightarrow> StateMachine_t" where
  "state_machine_handle_init sm now_ms =
     state_machine_set_outputs (sm\<lparr>state := STATE_SURFACE, state_start_ms := now_ms\<rparr>) (-100) False"

definition state_machine_handle_surface ::
  "StateMachine_t \<Rightarrow> Command_t \<Rightarrow> 32 word \<Rightarrow> StateMachine_t" where
  "state_machine_handle_surface sm cmd now_ms =
     (let sm1 = state_machine_set_outputs sm (-100) False in
      if cmd = CMD_DIVE \<and> target_depth_cm sm1 > 0
      then state_machine_set_outputs (sm1\<lparr>state := STATE_DIVING, state_start_ms := now_ms\<rparr>) 50 False
      else sm1)"

definition state_machine_handle_diving ::
  "StateMachine_t \<Rightarrow> Command_t \<Rightarrow> int \<Rightarrow> 32 word \<Rightarrow> StateMachine_t" where
  "state_machine_handle_diving sm cmd depth_cm now_ms =
     (let sm1 = state_machine_set_outputs sm 50 False in
      if cmd = CMD_SURFACE
      then state_machine_set_outputs (sm1\<lparr>state := STATE_SURFACING, state_start_ms := now_ms\<rparr>) (-100) False
      else if depth_cm \<ge> DIVE_COMPLETE_CM
      then state_machine_set_outputs (sm1\<lparr>state := STATE_SUBMERGED_MANUAL, state_start_ms := now_ms\<rparr>) 0 False
      else sm1)"

text \<open>
  \<^verbatim>\<open>state_machine_set_target_depth\<close> asserts that the depth lies in
  0 .. \<^verbatim>\<open>MAX_DEPTH_CM\<close> and then guards the same range. With assertions compiled in, a
  depth outside the range ends in \<^verbatim>\<open>p10_assert_fail\<close>; without them the guard returns
  before the store, leaving the previous target.
\<close>

definition state_machine_set_target_depth ::
  "p10_build \<Rightarrow> StateMachine_t \<Rightarrow> int \<Rightarrow> p10_halt + StateMachine_t" where
  "state_machine_set_target_depth build sm depth_cm =
     (if \<not> P10_ASSERT build (depth_cm \<ge> 0) then Inl P10_ASSERT_FAIL
      else if \<not> P10_ASSERT build (depth_cm \<le> MAX_DEPTH_CM) then Inl P10_ASSERT_FAIL
      else if depth_cm < 0 \<or> depth_cm > MAX_DEPTH_CM then Inr sm
      else Inr (sm\<lparr>target_depth_cm := depth_cm\<rparr>))"

text \<open>
  \<^verbatim>\<open>state_machine_handle_submerged_manual\<close> passes the measured depth to
  \<^verbatim>\<open>state_machine_set_target_depth\<close> as it is; when that call does not return, neither
  does the handler.
\<close>

definition state_machine_handle_submerged_manual ::
  "p10_build \<Rightarrow> StateMachine_t \<Rightarrow> Command_t \<Rightarrow> int \<Rightarrow> 32 word \<Rightarrow> p10_halt + StateMachine_t" where
  "state_machine_handle_submerged_manual build sm cmd depth_cm now_ms =
     (let sm1 = state_machine_set_outputs sm 0 False in
      if cmd = CMD_SURFACE
      then Inr (state_machine_set_outputs
                  (sm1\<lparr>state := STATE_SURFACING, state_start_ms := now_ms\<rparr>) (-100) False)
      else if cmd = CMD_DEPTH_HOLD
      then (case state_machine_set_target_depth build
                   (sm1\<lparr>state := STATE_SUBMERGED_DEPTH_HOLD\<rparr>) depth_cm of
              Inl halt \<Rightarrow> Inl halt
            | Inr sm2 \<Rightarrow> Inr (state_machine_set_outputs sm2 0 True))
      else Inr sm1)"

definition state_machine_handle_submerged_depth_hold ::
  "StateMachine_t \<Rightarrow> Command_t \<Rightarrow> int \<Rightarrow> 32 word \<Rightarrow> StateMachine_t" where
  "state_machine_handle_submerged_depth_hold sm cmd depth_cm now_ms =
     (let sm1 = state_machine_set_outputs sm 0 True in
      if cmd = CMD_SURFACE
      then state_machine_set_outputs (sm1\<lparr>state := STATE_SURFACING, state_start_ms := now_ms\<rparr>) (-100) False
      else if cmd = CMD_MANUAL
      then state_machine_set_outputs (sm1\<lparr>state := STATE_SUBMERGED_MANUAL, state_start_ms := now_ms\<rparr>) 0 False
      else sm1)"

definition state_machine_handle_surfacing :: "StateMachine_t \<Rightarrow> int \<Rightarrow> 32 word \<Rightarrow> StateMachine_t" where
  "state_machine_handle_surfacing sm depth_cm now_ms =
     (let sm1 = state_machine_set_outputs sm (-100) False in
      if depth_cm \<le> SURFACE_DEPTH_CM
      then sm1\<lparr>state := STATE_SURFACE, state_start_ms := now_ms\<rparr>
      else sm1)"

definition state_machine_init :: "StateMachine_t \<Rightarrow> StateMachine_t" where
  "state_machine_init sm =
     state_machine_set_outputs
       (sm\<lparr>state := STATE_INIT, target_depth_cm := 0, state_start_ms := 0\<rparr>) (-100) False"

definition state_machine_trigger_emergency :: "StateMachine_t \<Rightarrow> StateMachine_t" where
  "state_machine_trigger_emergency sm =
     state_machine_set_outputs (sm\<lparr>state := STATE_EMERGENCY\<rparr>) (-100) False"

text \<open>
  \<^verbatim>\<open>state_machine_process\<close>. The \<^verbatim>\<open>default\<close> branch of the C switch covers values
  outside the enumeration; the datatype has none.
\<close>

definition state_machine_process ::
  "p10_build \<Rightarrow> StateMachine_t \<Rightarrow> Command_t \<Rightarrow> int \<Rightarrow> 32 word \<Rightarrow> p10_halt + StateMachine_t" where
  "state_machine_process build sm cmd depth_cm now_ms =
     (if cmd = CMD_EMERGENCY then Inr (state_machine_trigger_emergency sm)
      else if state sm = STATE_EMERGENCY then Inr sm
      else (case state sm of
              STATE_INIT \<Rightarrow> Inr (state_machine_handle_init sm now_ms)
            | STATE_SURFACE \<Rightarrow> Inr (state_machine_handle_surface sm cmd now_ms)
            | STATE_DIVING \<Rightarrow> Inr (state_machine_handle_diving sm cmd depth_cm now_ms)
            | STATE_SUBMERGED_MANUAL \<Rightarrow>
                state_machine_handle_submerged_manual build sm cmd depth_cm now_ms
            | STATE_SUBMERGED_DEPTH_HOLD \<Rightarrow>
                Inr (state_machine_handle_submerged_depth_hold sm cmd depth_cm now_ms)
            | STATE_SURFACING \<Rightarrow> Inr (state_machine_handle_surfacing sm depth_cm now_ms)
            | STATE_EMERGENCY \<Rightarrow> Inr sm))"

text \<open>
  A run of the control loop: one \<^verbatim>\<open>state_machine_process\<close> call per input triple. A
  call that ends in \<^verbatim>\<open>p10_assert_fail\<close> ends the run.
\<close>

fun state_machine_process_all ::
  "p10_build \<Rightarrow> StateMachine_t \<Rightarrow> (Command_t \<times> int \<times> 32 word) list \<Rightarrow> p10_halt + StateMachine_t" where
  "state_machine_process_all build sm [] = Inr sm"
| "state_machine_process_all build sm ((cmd, depth_cm, now_ms) # rest) =
     (case state_machine_process build sm cmd depth_cm now_ms of
        Inl halt \<Rightarrow> Inl halt
      | Inr sm' \<Rightarrow> state_machine_process_all build sm' rest)"

text \<open>
  The state machines a program can hold: one initialised by \<^verbatim>\<open>state_machine_init\<close> and
  then driven through the functions of state\_machine.h, in either build, as far as the
  calls return.
\<close>

inductive_set sm_reachable :: "StateMachine_t set" where
  sm_init: "state_machine_init sm0 \<in> sm_reachable"
| sm_set_target:
    "sm \<in> sm_reachable \<Longrightarrow> state_machine_set_target_depth build sm d = Inr sm' \<Longrightarrow>
     sm' \<in> sm_reachable"
| sm_trigger: "sm \<in> sm_reachable \<Longrightarrow> state_machine_trigger_emergency sm \<in> sm_reachable"
| sm_process:
    "sm \<in> sm_reachable \<Longrightarrow> state_machine_process build sm cmd d t = Inr sm' \<Longrightarrow>
     sm' \<in> sm_reachable"

definition sm_emergency_outputs :: "StateMachine_t \<Rightarrow> bool" where
  "sm_emergency_outputs sm =
     (state sm = STATE_EMERGENCY \<and> ballast_target_level sm = -100 \<and> \<not> depth_hold_enabled sm)"

section \<open>Floating point\<close>

text \<open>
  The C type \<^verbatim>\<open>float\<close> is IEEE 754 binary32. A value is a NaN, one of the two
  infinities, negative zero, or a real number, with \<open>Val 0\<close> for positive zero. The type
  has every real where binary32 has finitely many of them, and one NaN where binary32 has
  many that the program cannot tell apart: what is proved for all values of the type holds
  for the values of binary32.
\<close>

datatype f32 = NaN | PInf | NInf | NZero | Val real

text \<open>The number a finite value stands for.\<close>

fun f32_num :: "f32 \<Rightarrow> real" where
  "f32_num (Val r) = r"
| "f32_num x = 0"

text \<open>
  The comparison operators of C on floats: a comparison with a NaN operand is false,
  the infinities lie below and above every number, and the two zeros are equal.
\<close>

fun f32_lt :: "f32 \<Rightarrow> f32 \<Rightarrow> bool" where
  "f32_lt NaN y = False"
| "f32_lt x NaN = False"
| "f32_lt PInf y = False"
| "f32_lt x NInf = False"
| "f32_lt NInf y = True"
| "f32_lt x PInf = True"
| "f32_lt x y = (f32_num x < f32_num y)"

definition f32_le :: "f32 \<Rightarrow> f32 \<Rightarrow> bool" where
  "f32_le x y = (x \<noteq> NaN \<and> y \<noteq> NaN \<and> \<not> f32_lt y x)"

text \<open>Unary minus flips the sign and never rounds; so does the absolute value.\<close>

fun f32_neg :: "f32 \<Rightarrow> f32" where
  "f32_neg NaN = NaN"
| "f32_neg PInf = NInf"
| "f32_neg NInf = PInf"
| "f32_neg NZero = Val 0"
| "f32_neg (Val r) = (if r = 0 then NZero else Val (- r))"

fun f32_abs :: "f32 \<Rightarrow> f32" where
  "f32_abs NaN = NaN"
| "f32_abs PInf = PInf"
| "f32_abs NInf = PInf"
| "f32_abs NZero = Val 0"
| "f32_abs (Val r) = Val \<bar>r\<bar>"

text \<open>
  The four arithmetic operations round, and how they round is the target's business, not
  the program's. They are a parameter: for operands that are not NaN the result is whatever
  the given arithmetic returns, a NaN included (as for infinity minus infinity). With a
  NaN operand the result is a NaN, as IEEE 754 requires of every arithmetic. Each C
  operator applied to floats is one such operation.
\<close>

record fpu =
  add_rounded :: "f32 \<Rightarrow> f32 \<Rightarrow> f32"
  sub_rounded :: "f32 \<Rightarrow> f32 \<Rightarrow> f32"
  mul_rounded :: "f32 \<Rightarrow> f32 \<Rightarrow> f32"
  div_rounded :: "f32 \<Rightarrow> f32 \<Rightarrow> f32"

definition f32_add :: "fpu \<Rightarrow> f32 \<Rightarrow> f32 \<Rightarrow> f32" where
  "f32_add F x y = (if x = NaN \<or> y = NaN then NaN else add_rounded F x y)"

definition f32_sub :: "fpu \<Rightarrow> f32 \<Rightarrow> f32 \<Rightarrow> f32" where
  "f32_sub F x y = (if x = NaN \<or> y = NaN then NaN else sub_rounded F x y)"

definition f32_mul :: "fpu \<Rightarrow> f32 \<Rightarrow> f32 \<Rightarrow> f32" where
  "f32_mul F x y = (if x = NaN \<or> y = NaN then NaN else mul_rounded F x y)"

definition f32_div :: "fpu \<Rightarrow> f32 \<Rightarrow> f32 \<Rightarrow> f32" where
  "f32_div F x y = (if x = NaN \<or> y = NaN then NaN else div_rounded F x y)"

text \<open>
  One arithmetic to compute examples with: IEEE 754 arithmetic that does not round. It
  returns the exact result with the sign rules of the standard for zeros and infinities.
  A binary32 operation returns the same value whenever that exact result is a binary32
  value, and so it does in every example below, where all values are integers of
  magnitude below \<open>2^24\<close>.
\<close>

fun f32_negative :: "f32 \<Rightarrow> bool" where
  "f32_negative NInf = True"
| "f32_negative NZero = True"
| "f32_negative (Val r) = (r < 0)"
| "f32_negative x = False"

definition f32_infinite :: "f32 \<Rightarrow> bool" where
  "f32_infinite x = (x = PInf \<or> x = NInf)"

definition f32_zero :: "f32 \<Rightarrow> bool" where
  "f32_zero x = (x = NZero \<or> x = Val 0)"

definition signed_zero :: "bool \<Rightarrow> f32" where
  "signed_zero negative = (if negative then NZero else Val 0)"

definition signed_infinity :: "bool \<Rightarrow> f32" where
  "signed_infinity negative = (if negative then NInf else PInf)"

definition add_exact :: "f32 \<Rightarrow> f32 \<Rightarrow> f32" where
  "add_exact x y =
     (if x = NaN \<or> y = NaN then NaN
      else if f32_infinite x \<and> f32_infinite y then (if x = y then x else NaN)
      else if f32_infinite x then x
      else if f32_infinite y then y
      else if x = NZero \<and> y = NZero then NZero
      else Val (f32_num x + f32_num y))"

definition sub_exact :: "f32 \<Rightarrow> f32 \<Rightarrow> f32" where
  "sub_exact x y = add_exact x (f32_neg y)"

definition mul_exact :: "f32 \<Rightarrow> f32 \<Rightarrow> f32" where
  "mul_exact x y =
     (let negative = (f32_negative x \<noteq> f32_negative y) in
      if x = NaN \<or> y = NaN then NaN
      else if f32_infinite x \<and> f32_zero y \<or> f32_zero x \<and> f32_infinite y then NaN
      else if f32_infinite x \<or> f32_infinite y then signed_infinity negative
      else if f32_zero x \<or> f32_zero y then signed_zero negative
      else Val (f32_num x * f32_num y))"

definition div_exact :: "f32 \<Rightarrow> f32 \<Rightarrow> f32" where
  "div_exact x y =
     (let negative = (f32_negative x \<noteq> f32_negative y) in
      if x = NaN \<or> y = NaN then NaN
      else if f32_infinite x \<and> f32_infinite y \<or> f32_zero x \<and> f32_zero y then NaN
      else if f32_infinite x \<or> f32_zero y then signed_infinity negative
      else if f32_infinite y \<or> f32_zero x then signed_zero negative
      else Val (f32_num x / f32_num y))"

definition unrounded :: fpu where
  "unrounded = \<lparr>add_rounded = add_exact, sub_rounded = sub_exact,
                 mul_rounded = mul_exact, div_rounded = div_exact\<rparr>"

section \<open>PID controller (pid.c)\<close>

record PidController_t =
  kp :: f32
  ki :: f32
  kd :: f32
  integral :: f32
  prev_error :: f32
  prev_measurement :: f32
  integral_limit :: f32
  output_min :: f32
  output_max :: f32
  use_derivative_on_measurement :: bool

text \<open>
  \<^verbatim>\<open>pid_init\<close> assigns every field of the structure it is given, so its result does not
  depend on what the memory held before.
\<close>

definition pid_init :: "f32 \<Rightarrow> f32 \<Rightarrow> f32 \<Rightarrow> PidController_t" where
  "pid_init p i d =
     \<lparr>kp = p, ki = i, kd = d,
      integral = Val 0, prev_error = Val 0, prev_measurement = Val 0,
      integral_limit = Val 1000, output_min = Val (-100), output_max = Val 100,
      use_derivative_on_measurement = True\<rparr>"

text \<open>
  \<^verbatim>\<open>pid_set_limits\<close> asserts \<^verbatim>\<open>out_min < out_max\<close> and then returns without a
  change when \<^verbatim>\<open>out_min >= out_max\<close>.
\<close>

definition pid_set_limits ::
  "p10_build \<Rightarrow> PidController_t \<Rightarrow> f32 \<Rightarrow> f32 \<Rightarrow> f32 \<Rightarrow> p10_halt + PidController_t" where
  "pid_set_limits build pid out_min out_max int_limit =
     (if \<not> P10_ASSERT build (f32_lt out_min out_max) then Inl P10_ASSERT_FAIL
      else if f32_le out_max out_min then Inr pid
      else Inr (pid\<lparr>output_min := out_min, output_max := out_max, integral_limit := int_limit\<rparr>))"

text \<open>
  \<^verbatim>\<open>pid_update\<close> returns the output and leaves the controller updated; the pair is
  (output, controller). It asserts \<^verbatim>\<open>dt > 0.0f\<close>, and with \<^verbatim>\<open>dt <= 0.0f\<close> it
  returns 0 and touches nothing.
\<close>

definition pid_update ::
  "p10_build \<Rightarrow> fpu \<Rightarrow> PidController_t \<Rightarrow> f32 \<Rightarrow> f32 \<Rightarrow> f32 \<Rightarrow>
     p10_halt + (f32 \<times> PidController_t)" where
  "pid_update build F pid setpoint measurement dt =
     (if \<not> P10_ASSERT build (f32_lt (Val 0) dt) then Inl P10_ASSERT_FAIL
      else if f32_le dt (Val 0) then Inr (Val 0, pid)
      else
        let error = f32_sub F setpoint measurement;
            p_term = f32_mul F (kp pid) error;
            integral1 = f32_add F (integral pid) (f32_mul F error dt);
            integral2 = (if f32_lt (integral_limit pid) integral1 then integral_limit pid
                         else if f32_lt integral1 (f32_neg (integral_limit pid))
                         then f32_neg (integral_limit pid)
                         else integral1);
            i_term = f32_mul F (ki pid) integral2;
            d_term = (if use_derivative_on_measurement pid
                      then f32_mul F (f32_neg (kd pid))
                             (f32_div F (f32_sub F measurement (prev_measurement pid)) dt)
                      else f32_mul F (kd pid)
                             (f32_div F (f32_sub F error (prev_error pid)) dt));
            output = f32_add F (f32_add F p_term i_term) d_term;
            output' = (if f32_lt (output_max pid) output then output_max pid
                       else if f32_lt output (output_min pid) then output_min pid
                       else output)
        in Inr (output', pid\<lparr>integral := integral2, prev_error := error,
                               prev_measurement := measurement\<rparr>))"

definition pid_reset :: "PidController_t \<Rightarrow> PidController_t" where
  "pid_reset pid = pid\<lparr>integral := Val 0, prev_error := Val 0, prev_measurement := Val 0\<rparr>"

text \<open>
  A sequence of updates, each with its own setpoint, measurement and time step. An update
  that ends in \<^verbatim>\<open>p10_assert_fail\<close> ends the sequence.
\<close>

fun pid_update_all ::
  "p10_build \<Rightarrow> fpu \<Rightarrow> PidController_t \<Rightarrow> (f32 \<times> f32 \<times> f32) list \<Rightarrow>
     p10_halt + PidController_t" where
  "pid_update_all build F pid [] = Inr pid"
| "pid_update_all build F pid ((setpoint, measurement, dt) # rest) =
     (case pid_update build F pid setpoint measurement dt of
        Inl halt \<Rightarrow> Inl halt
      | Inr (output, pid') \<Rightarrow> pid_update_all build F pid' rest)"

text \<open>
  A value limited to \<open>[lo, hi]\<close> the way the code limits the accumulator and the output:
  the upper bound is tested first, and a value for which neither test holds, a NaN for
  one, passes unchanged.
\<close>

definition clamp_to :: "f32 \<Rightarrow> f32 \<Rightarrow> f32 \<Rightarrow> f32" where
  "clamp_to lo hi x = (if f32_lt hi x then hi else if f32_lt x lo then lo else x)"
text \<open>The two components of what \<^verbatim>\<open>pid_update\<close> leaves behind.\<close>

definition pid_output :: "p10_halt + (f32 \<times> PidController_t) \<Rightarrow> p10_halt + f32" where
  "pid_output r = (case r of Inl halt \<Rightarrow> Inl halt | Inr (output, pid') \<Rightarrow> Inr output)"

definition pid_after :: "p10_halt + (f32 \<times> PidController_t) \<Rightarrow> p10_halt + PidController_t" where
  "pid_after r = (case r of Inl halt \<Rightarrow> Inl halt | Inr (output, pid') \<Rightarrow> Inr pid')"

text \<open>
  The specification's formula for the update that follows a reset,
  clamp(kp*e + ki*e*dt) with e = s - m, in the same arithmetic. It is written from the
  specification, to be compared with \<^verbatim>\<open>pid_update\<close>.
\<close>

definition spec_reset_update_output :: "fpu \<Rightarrow> PidController_t \<Rightarrow> f32 \<Rightarrow> f32 \<Rightarrow> f32 \<Rightarrow> f32" where
  "spec_reset_update_output F pid s m dt =
     clamp_to (output_min pid) (output_max pid)
       (f32_add F (f32_mul F (kp pid) (f32_sub F s m))
                  (f32_mul F (f32_mul F (ki pid) (f32_sub F s m)) dt))"

section \<open>Event log (log.c)\<close>

text \<open>
  The event codes of types.h. The header itself is not among the sources; the codes are
  those of its documented copy (references/types.md) together with \<^verbatim>\<open>EVT_CORE1_STALL\<close>,
  which safety\_monitor.c logs.
\<close>

datatype EventCode_t =
  EVT_NONE | EVT_BOOT | EVT_INIT_COMPLETE | EVT_STATE_CHANGE | EVT_MODE_CHANGE
  | EVT_SIGNAL_LOST | EVT_SIGNAL_RESTORED | EVT_LOW_BATTERY | EVT_LEAK_DETECTED
  | EVT_DEPTH_EXCEEDED | EVT_PITCH_EXCEEDED | EVT_EMERGENCY_BLOW | EVT_WATCHDOG_RESET
  | EVT_ASSERT_FAIL | EVT_I2C_ERROR | EVT_SENSOR_FAULT | EVT_CORE1_STALL

record EventLogEntry_t =
  timestamp_ms :: "32 word"
  code :: EventCode_t
  param1 :: "8 word"
  param2 :: "8 word"

text \<open>
  \<^verbatim>\<open>EVENT_LOG_SIZE\<close> is 32 in types.h as references/types.md documents it. It is
  compared with \<^verbatim>\<open>uint8_t\<close> values only.
\<close>

definition EVENT_LOG_SIZE :: "8 word" where
  "EVENT_LOG_SIZE = 32"

text \<open>
  \<^verbatim>\<open>EventLog_t\<close>: an array of \<^verbatim>\<open>EVENT_LOG_SIZE\<close> entries with \<^verbatim>\<open>uint8_t\<close> head and
  count. The array is a list of that length; a write at an index past its end, which C
  leaves undefined, changes nothing here, and \<open>log_index_in_range\<close> below shows that
  a log that started from \<^verbatim>\<open>log_init\<close> never gets there.
\<close>

record EventLog_t =
  entries :: "EventLogEntry_t list"
  head :: "8 word"
  count :: "8 word"

definition next_index :: "8 word \<Rightarrow> 8 word" where
  "next_index idx = (let idx1 = idx + 1 in if idx1 \<ge> EVENT_LOG_SIZE then 0 else idx1)"

definition wrap_sub :: "8 word \<Rightarrow> 8 word \<Rightarrow> 8 word" where
  "wrap_sub a b = (if a \<ge> b then a - b else EVENT_LOG_SIZE - (b - a))"

definition log_init :: EventLog_t where
  "log_init =
     \<lparr>entries = replicate (unat EVENT_LOG_SIZE)
                  \<lparr>timestamp_ms = 0, code = EVT_NONE, param1 = 0, param2 = 0\<rparr>,
      head = 0, count = 0\<rparr>"

definition log_event ::
  "EventLog_t \<Rightarrow> 32 word \<Rightarrow> EventCode_t \<Rightarrow> 8 word \<Rightarrow> 8 word \<Rightarrow> EventLog_t" where
  "log_event lg ts c p1 p2 =
     lg\<lparr>entries := (entries lg)[unat (head lg) :=
                        \<lparr>timestamp_ms = ts, code = c, param1 = p1, param2 = p2\<rparr>],
         head := next_index (head lg),
         count := (if count lg < EVENT_LOG_SIZE then count lg + 1 else count lg)\<rparr>"

text \<open>
  \<^verbatim>\<open>log_get_newest\<close> returns false without touching the output, or true with the entry
  copied out: \<open>None\<close> and \<open>Some\<close> of the entry.
\<close>

definition log_get_newest :: "EventLog_t \<Rightarrow> 8 word \<Rightarrow> EventLogEntry_t option" where
  "log_get_newest lg index_from_newest =
     (if index_from_newest \<ge> count lg then None
      else
        let newest_idx = wrap_sub (head lg) 1;
            idx = wrap_sub newest_idx index_from_newest
        in Some (entries lg ! unat idx))"

definition log_count :: "EventLog_t \<Rightarrow> 8 word" where
  "log_count lg = count lg"

text \<open>Appending a list of entries in order, one \<^verbatim>\<open>log_event\<close> call each.\<close>

fun log_events :: "EventLog_t \<Rightarrow> EventLogEntry_t list \<Rightarrow> EventLog_t" where
  "log_events lg [] = lg"
| "log_events lg (e # es) =
     log_events (log_event lg (timestamp_ms e) (code e) (param1 e) (param2 e)) es"

text \<open>
  The entries that the wrap-around test of test\_log.c appends: number \<open>i\<close> carries
  \<open>i\<close> as its timestamp and first parameter.
\<close>

definition numbered_entry :: "nat \<Rightarrow> EventLogEntry_t" where
  "numbered_entry i =
     \<lparr>timestamp_ms = of_nat i, code = EVT_STATE_CHANGE, param1 = of_nat i, param2 = 0\<rparr>"

text \<open>
  The representation invariant: after the entries \<open>es\<close> have been appended, entry number
  \<open>i\<close> lives in slot \<open>i mod 32\<close> as long as it is among the last 32.
\<close>

definition log_holds :: "EventLog_t \<Rightarrow> EventLogEntry_t list \<Rightarrow> bool" where
  "log_holds lg es =
     (length (entries lg) = 32
      \<and> unat (head lg) = length es mod 32
      \<and> unat (count lg) = min (length es) 32
      \<and> (\<forall>i < length es. length es \<le> i + 32 \<longrightarrow> entries lg ! (i mod 32) = es ! i))"

section \<open>Ballast controller (ballast\_ctrl.c)\<close>

datatype BallastState_t =
  BALLAST_STATE_IDLE | BALLAST_STATE_FILLING | BALLAST_STATE_DRAINING | BALLAST_STATE_HOLDING

text \<open>
  \<^verbatim>\<open>BallastController_t\<close>. Its \<^verbatim>\<open>state\<close> field is \<open>ballast_state\<close> here, the name
  \<open>state\<close> being taken by the vehicle state machine. The signed fields (\<^verbatim>\<open>int8_t\<close>
  levels, the \<^verbatim>\<open>int32_t\<close> fixed-point estimate) are integers: the code adds to the
  estimate at most 200000 (\<open>ballast_delta_x1000_bound\<close>) and clamps it to
  \<open>[-100000, 100000]\<close> at once, so from \<^verbatim>\<open>ballast_ctrl_init\<close> on no signed operation
  leaves its C type (\<open>ballast_reachable_in_range\<close>). The timestamps are \<^verbatim>\<open>uint32_t\<close>
  words, whose subtraction wraps.
\<close>

record BallastController_t =
  ballast_state :: BallastState_t
  target_level :: int
  current_level :: int
  current_level_x1000 :: int
  last_update_ms :: "32 word"
  fill_time_ms :: "32 word"

definition BALLAST_FILL_TIME_MS :: "32 word" where
  "BALLAST_FILL_TIME_MS = 10000"

definition BALLAST_LEVEL_TOLERANCE :: int where
  "BALLAST_LEVEL_TOLERANCE = 5"

definition BALLAST_FULL_RANGE_UNITS :: int where
  "BALLAST_FULL_RANGE_UNITS = 200"

definition BALLAST_SCALE_X1000 :: int where
  "BALLAST_SCALE_X1000 = 1000"

definition INT32_MAX :: int where
  "INT32_MAX = 2147483647"

definition clamp_i8 :: "int \<Rightarrow> int \<Rightarrow> int \<Rightarrow> int" where
  "clamp_i8 v lo hi = (if v < lo then lo else if v > hi then hi else v)"

definition clamp_dt_ms :: "32 word \<Rightarrow> 32 word \<Rightarrow> 32 word" where
  "clamp_dt_ms dt_ms max_dt_ms = (if dt_ms > max_dt_ms then max_dt_ms else dt_ms)"

text \<open>
  \<^verbatim>\<open>ballast_delta_x1000\<close> computes in \<^verbatim>\<open>uint64_t\<close>, where the product of a 32-bit
  value and 200000 cannot wrap; \<open>uint\<close> reads the words as integers.
\<close>

definition ballast_delta_x1000 :: "32 word \<Rightarrow> 32 word \<Rightarrow> int" where
  "ballast_delta_x1000 dt_ms fill_time =
     (if fill_time = 0 then 0
      else
        let dt_clamped = clamp_dt_ms dt_ms fill_time;
            num = uint dt_clamped * (BALLAST_FULL_RANGE_UNITS * BALLAST_SCALE_X1000);
            delta_u = num div uint fill_time
        in if delta_u > INT32_MAX then INT32_MAX else delta_u)"

text \<open>
  \<^verbatim>\<open>ballast_update_level\<close>. The value 0 of \<^verbatim>\<open>last_update_ms\<close> means "no timestamp
  yet": the call then only stores the time. The C division by 1000 truncates towards
  zero (\<open>sdiv\<close>).
\<close>

definition ballast_update_level ::
  "BallastController_t \<Rightarrow> int \<Rightarrow> 32 word \<Rightarrow> BallastController_t" where
  "ballast_update_level ctrl direction now_ms =
     (if last_update_ms ctrl = 0 then ctrl\<lparr>last_update_ms := now_ms\<rparr>
      else
        let dt_ms = now_ms - last_update_ms ctrl;
            delta = ballast_delta_x1000 dt_ms (fill_time_ms ctrl);
            x = current_level_x1000 ctrl + direction * delta;
            min_x1000 = -100 * BALLAST_SCALE_X1000;
            max_x1000 = 100 * BALLAST_SCALE_X1000;
            x' = (if x < min_x1000 then min_x1000 else if x > max_x1000 then max_x1000 else x)
        in ctrl\<lparr>last_update_ms := now_ms,
                current_level_x1000 := x',
                current_level := clamp_i8 (x' sdiv BALLAST_SCALE_X1000) (-100) 100\<rparr>)"

definition ballast_ctrl_init :: BallastController_t where
  "ballast_ctrl_init =
     \<lparr>ballast_state = BALLAST_STATE_IDLE, target_level = 0, current_level = 0,
      current_level_x1000 = 0, last_update_ms = 0, fill_time_ms = BALLAST_FILL_TIME_MS\<rparr>"

definition ballast_ctrl_set_target :: "BallastController_t \<Rightarrow> int \<Rightarrow> BallastController_t" where
  "ballast_ctrl_set_target ctrl level = ctrl\<lparr>target_level := clamp_i8 level (-100) 100\<rparr>"

text \<open>
  \<^verbatim>\<open>ballast_ctrl_update\<close> writes the pump speed and the valve command through two
  pointers; the result here is the controller with the two outputs. Both outputs start
  from \<^verbatim>\<open>ballast_ctrl_default_outputs\<close> (0, closed). The \<^verbatim>\<open>default\<close> branch of the
  switch covers values outside the enumeration; the datatype has none.
\<close>

definition ballast_ctrl_update ::
  "BallastController_t \<Rightarrow> 32 word \<Rightarrow> BallastController_t \<times> int \<times> bool" where
  "ballast_ctrl_update ctrl now_ms =
     (let error = target_level ctrl - current_level ctrl;
          abs_error = \<bar>error\<bar>
      in case ballast_state ctrl of
           BALLAST_STATE_IDLE \<Rightarrow>
             if abs_error > BALLAST_LEVEL_TOLERANCE
             then if error > 0
                  then (ctrl\<lparr>ballast_state := BALLAST_STATE_FILLING, last_update_ms := 0\<rparr>,
                        100, False)
                  else (ctrl\<lparr>ballast_state := BALLAST_STATE_DRAINING, last_update_ms := 0\<rparr>,
                        -100, True)
             else (ctrl, 0, False)
         | BALLAST_STATE_FILLING \<Rightarrow>
             let ctrl1 = ballast_update_level ctrl 1 now_ms
             in if current_level ctrl1 \<ge> target_level ctrl1
                then (ctrl1\<lparr>current_level := target_level ctrl1,
                             current_level_x1000 := target_level ctrl1 * BALLAST_SCALE_X1000,
                             ballast_state := BALLAST_STATE_HOLDING\<rparr>, 100, False)
                else (ctrl1, 100, False)
         | BALLAST_STATE_DRAINING \<Rightarrow>
             let ctrl1 = ballast_update_level ctrl (-1) now_ms
             in if current_level ctrl1 \<le> target_level ctrl1
                then (ctrl1\<lparr>current_level := target_level ctrl1,
                             current_level_x1000 := target_level ctrl1 * BALLAST_SCALE_X1000,
                             ballast_state := BALLAST_STATE_HOLDING\<rparr>, -100, True)
                else (ctrl1, -100, True)
         | BALLAST_STATE_HOLDING \<Rightarrow>
             if abs_error > BALLAST_LEVEL_TOLERANCE * 2
             then (ctrl\<lparr>ballast_state := BALLAST_STATE_IDLE\<rparr>, 0, False)
             else (ctrl, 0, False))"

text \<open>The three components of that result.\<close>

definition ctrl_out :: "BallastController_t \<times> int \<times> bool \<Rightarrow> BallastController_t" where
  "ctrl_out r = fst r"

definition pump_speed_out :: "BallastController_t \<times> int \<times> bool \<Rightarrow> int" where
  "pump_speed_out r = fst (snd r)"

definition valve_open_out :: "BallastController_t \<times> int \<times> bool \<Rightarrow> bool" where
  "valve_open_out r = snd (snd r)"

text \<open>
  The controllers a program can hold: initialised by \<^verbatim>\<open>ballast_ctrl_init\<close>, then
  driven by \<^verbatim>\<open>ballast_ctrl_set_target\<close> and \<^verbatim>\<open>ballast_ctrl_update\<close>.
\<close>

inductive_set ballast_reachable :: "BallastController_t set" where
  b_init: "ballast_ctrl_init \<in> ballast_reachable"
| b_set_target: "ctrl \<in> ballast_reachable \<Longrightarrow> ballast_ctrl_set_target ctrl level \<in> ballast_reachable"
| b_update: "ctrl \<in> ballast_reachable \<Longrightarrow> ctrl_out (ballast_ctrl_update ctrl now_ms) \<in> ballast_reachable"

definition ballast_in_range :: "BallastController_t \<Rightarrow> bool" where
  "ballast_in_range ctrl =
     (-100 \<le> target_level ctrl \<and> target_level ctrl \<le> 100
      \<and> -100 \<le> current_level ctrl \<and> current_level ctrl \<le> 100
      \<and> -100000 \<le> current_level_x1000 ctrl \<and> current_level_x1000 ctrl \<le> 100000)"

section \<open>Safety monitor and emergency blow (safety\_monitor.c, emergency.c)\<close>

definition SIGNAL_TIMEOUT_MS :: "32 word" where
  "SIGNAL_TIMEOUT_MS = 3000"

definition MAX_PITCH_DEG :: int where
  "MAX_PITCH_DEG = 45"

definition MIN_BATTERY_MV :: "16 word" where
  "MIN_BATTERY_MV = 6400"

definition CORE1_STALL_THRESHOLD :: "32 word" where
  "CORE1_STALL_THRESHOLD = 10"

text \<open>
  Modelled from the spec: the positions of the bit fields of \<^verbatim>\<open>FaultFlags_t\<close>, whose
  declaration (types.h) is missing. \<^verbatim>\<open>FaultFlags_t\<close> is a union of a 16-bit word
  \<^verbatim>\<open>all\<close> and one-bit fields \<^verbatim>\<open>bits\<close>; it is the word here, and a field is the bit
  at its position. The spec names the critical faults as signal\_lost, low\_battery, leak,
  depth\_exceeded, pitch\_exceeded and core\_stall; \<^verbatim>\<open>safety_monitor_run\<close> tests them with
  the mask \<^verbatim>\<open>0x011F\<close>, commented "First 5 bits + core1\_stall (bit 8)", which puts the
  first five at positions 0 to 4 in the order it lists them (references/types.md declares
  them in that order) and core1\_stall at position 8.
\<close>

definition signal_lost :: nat where "signal_lost = 0"
definition low_battery :: nat where "low_battery = 1"
definition leak :: nat where "leak = 2"
definition depth_exceeded :: nat where "depth_exceeded = 3"
definition pitch_exceeded :: nat where "pitch_exceeded = 4"
definition core1_stall :: nat where "core1_stall = 8"

text \<open>
  The state of core 0: the file-level and function-level statics of safety\_monitor.c and
  emergency.c, the actuator commands last issued, and what the code did to the outside:
  the number of \<^verbatim>\<open>watchdog_update\<close> calls (counted as the test mock of the Pico SDK
  counts them), the \<^verbatim>\<open>log_event\<close> calls in order, and the reason of every
  \<^verbatim>\<open>trigger_emergency_blow\<close> call in order.
\<close>

record SafetyCore =
  g_faults :: "16 word"
  g_emergency :: bool
  g_last_rc_valid_ms :: "32 word"
  g_current_depth_cm :: "32 word"
  g_current_pitch_x10 :: "16 word"
  s_last_heartbeat :: "32 word"
  s_stall_count :: "32 word"
  last_led_toggle_ms :: "32 word"
  led_state :: bool
  emergency_active :: bool
  emergency_reason :: EventCode_t
  valve_opened :: bool
  pump_speed :: int
  servo_rudder :: int
  servo_bowplane :: int
  servo_sternplane :: int
  watchdog_enabled :: bool
  watchdog_updates :: nat
  events_logged :: "(EventCode_t \<times> 8 word \<times> 8 word) list"
  blow_calls :: "EventCode_t list"

text \<open>
  What one pass of the safety loop reads from outside core 0: the clock
  (\<^verbatim>\<open>to_ms_since_boot\<close>, the local \<^verbatim>\<open>now_ms\<close> of \<^verbatim>\<open>safety_monitor_run\<close>), the battery
  voltage (\<^verbatim>\<open>battery_read_mv\<close>), the leak detector (\<^verbatim>\<open>leak_detected\<close>) and the heartbeat
  counter that core 1 increments (\<^verbatim>\<open>g_core1_heartbeat\<close>).
\<close>

record TickInputs =
  clock_ms :: "32 word"
  batt_mv :: "16 word"
  leak_reading :: bool
  g_core1_heartbeat :: "32 word"

text \<open>The values the C statics have at reset, before any initialisation function runs.\<close>

definition safety_reset_state :: SafetyCore where
  "safety_reset_state =
     \<lparr>g_faults = 0, g_emergency = False, g_last_rc_valid_ms = 0, g_current_depth_cm = 0,
      g_current_pitch_x10 = 0, s_last_heartbeat = 0, s_stall_count = 0,
      last_led_toggle_ms = 0, led_state = False,
      emergency_active = False, emergency_reason = EVT_NONE,
      valve_opened = False, pump_speed = 0, servo_rudder = 0, servo_bowplane = 0,
      servo_sternplane = 0, watchdog_enabled = False, watchdog_updates = 0,
      events_logged = [], blow_calls = []\<rparr>"

definition safety_update_rc_time :: "SafetyCore \<Rightarrow> 32 word \<Rightarrow> SafetyCore" where
  "safety_update_rc_time s ms = s\<lparr>g_last_rc_valid_ms := ms\<rparr>"

definition safety_update_depth :: "SafetyCore \<Rightarrow> 32 word \<Rightarrow> SafetyCore" where
  "safety_update_depth s depth_cm = s\<lparr>g_current_depth_cm := depth_cm\<rparr>"

definition safety_update_pitch :: "SafetyCore \<Rightarrow> 16 word \<Rightarrow> SafetyCore" where
  "safety_update_pitch s pitch_x10 = s\<lparr>g_current_pitch_x10 := pitch_x10\<rparr>"

definition safety_monitor_init :: "SafetyCore \<Rightarrow> SafetyCore" where
  "safety_monitor_init s = s\<lparr>watchdog_enabled := True, g_faults := 0, g_emergency := False\<rparr>"

text \<open>
  Modelled from the spec: the three-argument \<^verbatim>\<open>log_event\<close> that safety\_monitor.c and
  emergency.c call, which is missing (log.c defines a five-argument function on an
  explicit log). The spec has such a call append one entry; it is recorded here as one
  more element of the sequence of logged events, the two parameters as \<^verbatim>\<open>uint8_t\<close>.
\<close>

definition log_event_call :: "SafetyCore \<Rightarrow> EventCode_t \<Rightarrow> 8 word \<Rightarrow> 8 word \<Rightarrow> SafetyCore" where
  "log_event_call s c p1 p2 = s\<lparr>events_logged := events_logged s @ [(c, p1, p2)]\<rparr>"

definition trigger_emergency_blow :: "SafetyCore \<Rightarrow> EventCode_t \<Rightarrow> SafetyCore" where
  "trigger_emergency_blow s reason =
     log_event_call
       (s\<lparr>emergency_active := True, emergency_reason := reason,
           valve_opened := True, pump_speed := -100,
           servo_rudder := 0, servo_bowplane := 100, servo_sternplane := 100,
           blow_calls := blow_calls s @ [reason]\<rparr>)
       reason 0 0"

definition watchdog_update :: "SafetyCore \<Rightarrow> SafetyCore" where
  "watchdog_update s = s\<lparr>watchdog_updates := Suc (watchdog_updates s)\<rparr>"

definition check_rc_signal :: "SafetyCore \<Rightarrow> 32 word \<Rightarrow> SafetyCore" where
  "check_rc_signal s now =
     (if now - g_last_rc_valid_ms s > SIGNAL_TIMEOUT_MS
      then (if \<not> bit (g_faults s) signal_lost
            then log_event_call (s\<lparr>g_faults := set_bit signal_lost (g_faults s)\<rparr>) EVT_SIGNAL_LOST 0 0
            else s)
      else (if bit (g_faults s) signal_lost
            then log_event_call (s\<lparr>g_faults := unset_bit signal_lost (g_faults s)\<rparr>)
                   EVT_SIGNAL_RESTORED 0 0
            else s))"

definition check_battery :: "SafetyCore \<Rightarrow> 16 word \<Rightarrow> SafetyCore" where
  "check_battery s mv =
     (if mv < MIN_BATTERY_MV
      then (if \<not> bit (g_faults s) low_battery
            then log_event_call (s\<lparr>g_faults := set_bit low_battery (g_faults s)\<rparr>)
                   EVT_LOW_BATTERY (ucast (drop_bit 8 mv)) (ucast (mv AND 0xFF))
            else s)
      else s)"

definition check_sensors :: "SafetyCore \<Rightarrow> bool \<Rightarrow> SafetyCore" where
  "check_sensors s leaking =
     (let s1 = (if leaking
                then (if \<not> bit (g_faults s) leak
                      then log_event_call (s\<lparr>g_faults := set_bit leak (g_faults s)\<rparr>)
                             EVT_LEAK_DETECTED 0 0
                      else s)
                else s);
          s2 = (if sint (g_current_depth_cm s1) > MAX_DEPTH_CM
                then (if \<not> bit (g_faults s1) depth_exceeded
                      then log_event_call (s1\<lparr>g_faults := set_bit depth_exceeded (g_faults s1)\<rparr>)
                             EVT_DEPTH_EXCEEDED
                             (ucast (signed_drop_bit 8 (g_current_depth_cm s1)))
                             (ucast (g_current_depth_cm s1 AND 0xFF))
                      else s1)
                else s1);
          pitch_deg = sint (g_current_pitch_x10 s2) sdiv 10
      in if \<bar>pitch_deg\<bar> > MAX_PITCH_DEG
         then (if \<not> bit (g_faults s2) pitch_exceeded
               then log_event_call (s2\<lparr>g_faults := set_bit pitch_exceeded (g_faults s2)\<rparr>)
                      EVT_PITCH_EXCEEDED (word_of_int pitch_deg) 0
               else s2)
         else s2)"

definition check_core1_health :: "SafetyCore \<Rightarrow> 32 word \<Rightarrow> SafetyCore" where
  "check_core1_health s heartbeat =
     (let s1 =
        (if heartbeat = s_last_heartbeat s
         then
           (let s' = s\<lparr>s_stall_count := s_stall_count s + 1\<rparr>
            in if s_stall_count s' > CORE1_STALL_THRESHOLD
               then (if \<not> bit (g_faults s') core1_stall
                     then trigger_emergency_blow
                            (log_event_call (s'\<lparr>g_faults := set_bit core1_stall (g_faults s')\<rparr>)
                               EVT_CORE1_STALL 0 0)
                            EVT_CORE1_STALL
                     else s')
               else s')
         else s\<lparr>s_stall_count := 0, g_faults := unset_bit core1_stall (g_faults s)\<rparr>)
      in s1\<lparr>s_last_heartbeat := heartbeat\<rparr>)"

definition update_heartbeat_led :: "SafetyCore \<Rightarrow> 32 word \<Rightarrow> SafetyCore" where
  "update_heartbeat_led s now =
     (let blink_rate = (if g_emergency s then 100 else 500)
      in if now - last_led_toggle_ms s \<ge> blink_rate
         then s\<lparr>led_state := \<not> led_state s, last_led_toggle_ms := now\<rparr>
         else s)"

definition critical_mask :: "16 word" where
  "critical_mask = 0x011F"

text \<open>The fault checks of one pass, in the order \<^verbatim>\<open>safety_monitor_run\<close> makes them.\<close>

definition check_all :: "SafetyCore \<Rightarrow> TickInputs \<Rightarrow> SafetyCore" where
  "check_all s i =
     check_core1_health
       (check_sensors (check_battery (check_rc_signal s (clock_ms i)) (batt_mv i)) (leak_reading i))
       (g_core1_heartbeat i)"

definition safety_monitor_run :: "SafetyCore \<Rightarrow> TickInputs \<Rightarrow> SafetyCore" where
  "safety_monitor_run s i =
     (let s1 = watchdog_update s;
          s2 = check_all s1 i;
          s3 = (if g_faults s2 AND critical_mask \<noteq> 0 \<and> \<not> g_emergency s2
                then (trigger_emergency_blow s2 EVT_EMERGENCY_BLOW)\<lparr>g_emergency := True\<rparr>
                else s2)
      in update_heartbeat_led s3 (clock_ms i))"

text \<open>
  What happens on core 0's state during a run: passes of the safety loop, interleaved
  with the stores core 1 makes through the \<^verbatim>\<open>safety_update_\<close> functions.
\<close>

datatype SafetyEvent =
  Tick TickInputs | UpdateRcTime "32 word" | UpdateDepth "32 word" | UpdatePitch "16 word"

fun safety_step :: "SafetyCore \<Rightarrow> SafetyEvent \<Rightarrow> SafetyCore" where
  "safety_step s (Tick i) = safety_monitor_run s i"
| "safety_step s (UpdateRcTime ms) = safety_update_rc_time s ms"
| "safety_step s (UpdateDepth d) = safety_update_depth s d"
| "safety_step s (UpdatePitch p) = safety_update_pitch s p"

fun safety_run :: "SafetyCore \<Rightarrow> SafetyEvent list \<Rightarrow> SafetyCore" where
  "safety_run s [] = s"
| "safety_run s (e # es) = safety_run (safety_step s e) es"

definition safety_boot :: SafetyCore where
  "safety_boot = safety_monitor_init safety_reset_state"

text \<open>
  Two conditions of one pass, named for the statements below: a critical fault is a
  fault word with a bit of \<^verbatim>\<open>critical_mask\<close> set, and \<^verbatim>\<open>core1_stall\<close> rises in a pass
  when \<^verbatim>\<open>check_core1_health\<close> takes its innermost branch.
\<close>

definition critical_fault :: "16 word \<Rightarrow> bool" where
  "critical_fault w = (w AND critical_mask \<noteq> 0)"

definition core1_stall_rises :: "SafetyCore \<Rightarrow> 32 word \<Rightarrow> bool" where
  "core1_stall_rises s heartbeat =
     (heartbeat = s_last_heartbeat s \<and> s_stall_count s + 1 > CORE1_STALL_THRESHOLD
      \<and> \<not> bit (g_faults s) core1_stall)"

text \<open>
  Inputs for worked runs: a pass with a healthy battery, at time \<open>t\<close> with heartbeat
  counter \<open>hb\<close>, without and with a leak reading; and twelve passes 10 ms apart during
  which the heartbeat counter, having reached 5, no longer moves.
\<close>

definition quiet_tick :: "32 word \<Rightarrow> 32 word \<Rightarrow> TickInputs" where
  "quiet_tick t hb = \<lparr>clock_ms = t, batt_mv = 7400, leak_reading = False, g_core1_heartbeat = hb\<rparr>"

definition leak_tick :: "32 word \<Rightarrow> 32 word \<Rightarrow> TickInputs" where
  "leak_tick t hb = \<lparr>clock_ms = t, batt_mv = 7400, leak_reading = True, g_core1_heartbeat = hb\<rparr>"

definition stalled_ticks :: "SafetyEvent list" where
  "stalled_ticks =
     [Tick (quiet_tick 10 5), Tick (quiet_tick 20 5), Tick (quiet_tick 30 5),
      Tick (quiet_tick 40 5), Tick (quiet_tick 50 5), Tick (quiet_tick 60 5),
      Tick (quiet_tick 70 5), Tick (quiet_tick 80 5), Tick (quiet_tick 90 5),
      Tick (quiet_tick 100 5), Tick (quiet_tick 110 5), Tick (quiet_tick 120 5)]"

section \<open>Properties: vehicle state machine\<close>

subsection \<open>Emergency is absorbing\<close>

lemma sm_process_keeps_emergency:
  assumes "sm_emergency_outputs sm"
  shows "state_machine_process build sm cmd d t = Inr sm"
  using assms
  by (simp add: sm_emergency_outputs_def state_machine_process_def
      state_machine_trigger_emergency_def state_machine_set_outputs_def)

lemma sm_process_all_keeps_emergency:
  "sm_emergency_outputs sm \<Longrightarrow> state_machine_process_all build sm ins = Inr sm"
proof (induction ins)
  case Nil
  then show ?case by simp
next
  case (Cons i ins)
  obtain cmd d t where i: "i = (cmd, d, t)" by (cases i) auto
  from Cons show ?case
    unfolding i by (simp add: sm_process_keeps_emergency)
qed

lemma sm_set_target_depth_keeps:
  assumes "state_machine_set_target_depth build sm d = Inr sm'"
  shows "state sm' = state sm \<and> ballast_target_level sm' = ballast_target_level sm
       \<and> depth_hold_enabled sm' = depth_hold_enabled sm"
  using assms
  by (auto simp: state_machine_set_target_depth_def split: if_splits)

lemma sm_process_enters_emergency_outputs:
  assumes "state_machine_process build sm cmd d t = Inr sm'"
    and "state sm = STATE_EMERGENCY \<longrightarrow> sm_emergency_outputs sm"
    and "state sm' = STATE_EMERGENCY"
  shows "sm_emergency_outputs sm'"
proof (cases "cmd = CMD_EMERGENCY \<or> state sm = STATE_EMERGENCY")
  case True
  with assms show ?thesis
    by (auto simp: state_machine_process_def state_machine_trigger_emergency_def
        state_machine_set_outputs_def sm_emergency_outputs_def split: if_splits)
next
  case False
  show ?thesis
  proof (cases "state sm")
    case STATE_SUBMERGED_MANUAL
    with False assms(1,3) show ?thesis
      by (auto simp: state_machine_process_def state_machine_handle_submerged_manual_def
          state_machine_set_outputs_def Let_def
          split: if_splits sum.splits dest!: sm_set_target_depth_keeps)
  qed (use False assms(1,3) in \<open>auto simp: state_machine_process_def
          state_machine_handle_init_def state_machine_handle_surface_def
          state_machine_handle_diving_def state_machine_handle_submerged_depth_hold_def
          state_machine_handle_surfacing_def state_machine_set_outputs_def Let_def
          split: if_splits\<close>)
qed

lemma sm_reachable_emergency_outputs:
  "sm \<in> sm_reachable \<Longrightarrow> state sm = STATE_EMERGENCY \<Longrightarrow> sm_emergency_outputs sm"
proof (induction rule: sm_reachable.induct)
  case (sm_init sm0)
  then show ?case by (simp add: state_machine_init_def state_machine_set_outputs_def)
next
  case (sm_set_target sm build d sm')
  from sm_set_target_depth_keeps [OF sm_set_target.hyps(2)] sm_set_target.prems sm_set_target.IH
  show ?case by (simp add: sm_emergency_outputs_def)
next
  case (sm_trigger sm)
  then show ?case
    by (simp add: state_machine_trigger_emergency_def state_machine_set_outputs_def
        sm_emergency_outputs_def)
next
  case (sm_process sm build cmd d t sm')
  show ?case
    using sm_process.hyps(2) _ sm_process.prems
    by (rule sm_process_enters_emergency_outputs) (simp add: sm_process.IH)
qed

text \<open>
  C3. Once a state machine driven through its interface is in \<^verbatim>\<open>STATE_EMERGENCY\<close>,
  every later sequence of \<^verbatim>\<open>state_machine_process\<close> calls, whatever the commands, the
  measured depths and the times, and in either build, returns, and ends in
  \<^verbatim>\<open>STATE_EMERGENCY\<close> with the ballast target at -100 and depth hold disabled.
\<close>

theorem emergency_is_absorbing:
  assumes "sm \<in> sm_reachable" and "state sm = STATE_EMERGENCY"
  shows "case state_machine_process_all build sm ins of
           Inl halt \<Rightarrow> False
         | Inr sm' \<Rightarrow> state sm' = STATE_EMERGENCY \<and> ballast_target_level sm' = -100
                      \<and> \<not> depth_hold_enabled sm'"
proof -
  from assms have e: "sm_emergency_outputs sm"
    by (rule sm_reachable_emergency_outputs)
  then have "state_machine_process_all build sm ins = Inr sm"
    by (rule sm_process_all_keeps_emergency)
  with e show ?thesis by (simp add: sm_emergency_outputs_def)
qed

theorem emergency_is_absorbing_witness:
  "case state_machine_process_all ASSERTS_ENABLED
          (state_machine_trigger_emergency
             (state_machine_init \<lparr>state = STATE_DIVING, target_depth_cm = 150,
                state_start_ms = 7, ballast_target_level = 50, depth_hold_enabled = True\<rparr>))
          [(CMD_DIVE, 60, 20), (CMD_SURFACE, 0, 30), (CMD_DEPTH_HOLD, 400, 40)] of
     Inl halt \<Rightarrow> False
   | Inr sm' \<Rightarrow> state sm' = STATE_EMERGENCY \<and> ballast_target_level sm' = -100
                \<and> \<not> depth_hold_enabled sm'"
proof -
  let ?sm0 = "\<lparr>state = STATE_DIVING, target_depth_cm = 150,
                  state_start_ms = 7, ballast_target_level = 50, depth_hold_enabled = True\<rparr>"
  let ?sm = "state_machine_trigger_emergency (state_machine_init ?sm0)"
  have r: "?sm \<in> sm_reachable"
    by (intro sm_reachable.sm_trigger sm_reachable.sm_init)
  have e: "state ?sm = STATE_EMERGENCY"
    by (simp add: state_machine_trigger_emergency_def state_machine_set_outputs_def)
  show ?thesis
    by (rule emergency_is_absorbing [OF r e])
qed

subsection \<open>Entering depth hold\<close>

lemma depth_hold_in_range:
  assumes "state sm = STATE_SUBMERGED_MANUAL" and "0 \<le> depth_cm" and "depth_cm \<le> MAX_DEPTH_CM"
  shows "state_machine_process build sm CMD_DEPTH_HOLD depth_cm now_ms =
           Inr (sm\<lparr>state := STATE_SUBMERGED_DEPTH_HOLD, target_depth_cm := depth_cm,
                    ballast_target_level := 0, depth_hold_enabled := True\<rparr>)"
  using assms
  by (simp add: state_machine_process_def state_machine_handle_submerged_manual_def
      state_machine_set_outputs_def state_machine_set_target_depth_def P10_ASSERT_def Let_def)

lemma depth_hold_out_of_range:
  assumes "state sm = STATE_SUBMERGED_MANUAL" and "depth_cm < 0 \<or> MAX_DEPTH_CM < depth_cm"
  shows "state_machine_process ASSERTS_ENABLED sm CMD_DEPTH_HOLD depth_cm now_ms = Inl P10_ASSERT_FAIL"
    and "state_machine_process NDEBUG sm CMD_DEPTH_HOLD depth_cm now_ms =
           Inr (sm\<lparr>state := STATE_SUBMERGED_DEPTH_HOLD,
                    ballast_target_level := 0, depth_hold_enabled := True\<rparr>)"
  using assms
  by (auto simp: state_machine_process_def state_machine_handle_submerged_manual_def
      state_machine_set_outputs_def state_machine_set_target_depth_def P10_ASSERT_def Let_def)

text \<open>
  C7 holds of the code for a measured depth in 0 .. \<^verbatim>\<open>MAX_DEPTH_CM\<close>
  (\<open>depth_hold_in_range\<close>) and fails outside it (\<open>depth_hold_out_of_range\<close>): the
  handler of \<^verbatim>\<open>STATE_SUBMERGED_MANUAL\<close> passes the measured depth unchecked to
  \<^verbatim>\<open>state_machine_set_target_depth\<close>, whose assertions forbid a depth outside that
  range. At a stored target of 150 and a measured depth of 400 or of -1, with assertions
  compiled in, the call ends in \<^verbatim>\<open>p10_assert_fail\<close> and the machine never enters depth
  hold; without them it enters depth hold on the target stored before, 150.
\<close>

theorem depth_hold_stale_target:
  "state_machine_process ASSERTS_ENABLED
     \<lparr>state = STATE_SUBMERGED_MANUAL, target_depth_cm = 150, state_start_ms = 10,
      ballast_target_level = 0, depth_hold_enabled = False\<rparr>
     CMD_DEPTH_HOLD 400 20 = Inl P10_ASSERT_FAIL
   \<and> state_machine_process NDEBUG
     \<lparr>state = STATE_SUBMERGED_MANUAL, target_depth_cm = 150, state_start_ms = 10,
      ballast_target_level = 0, depth_hold_enabled = False\<rparr>
     CMD_DEPTH_HOLD 400 20 =
       Inr \<lparr>state = STATE_SUBMERGED_DEPTH_HOLD, target_depth_cm = 150, state_start_ms = 10,
            ballast_target_level = 0, depth_hold_enabled = True\<rparr>
   \<and> state_machine_process ASSERTS_ENABLED
     \<lparr>state = STATE_SUBMERGED_MANUAL, target_depth_cm = 150, state_start_ms = 10,
      ballast_target_level = 0, depth_hold_enabled = False\<rparr>
     CMD_DEPTH_HOLD (-1) 20 = Inl P10_ASSERT_FAIL
   \<and> state_machine_process NDEBUG
     \<lparr>state = STATE_SUBMERGED_MANUAL, target_depth_cm = 150, state_start_ms = 10,
      ballast_target_level = 0, depth_hold_enabled = False\<rparr>
     CMD_DEPTH_HOLD (-1) 20 =
       Inr \<lparr>state = STATE_SUBMERGED_DEPTH_HOLD, target_depth_cm = 150, state_start_ms = 10,
            ballast_target_level = 0, depth_hold_enabled = True\<rparr>"
  by (simp add: state_machine_process_def state_machine_handle_submerged_manual_def
      state_machine_set_outputs_def state_machine_set_target_depth_def P10_ASSERT_def Let_def
      MAX_DEPTH_CM_def)

section \<open>Properties: PID controller\<close>

lemmas f32_exact_defs =
  f32_add_def f32_sub_def f32_mul_def f32_div_def unrounded_def
  add_exact_def sub_exact_def mul_exact_def div_exact_def
  f32_infinite_def f32_zero_def signed_zero_def signed_infinity_def f32_le_def

lemma f32_lt_not_le: "f32_lt (Val 0) dt \<Longrightarrow> \<not> f32_le dt (Val 0)"
  by (simp add: f32_le_def)

subsection \<open>Reset followed by one update\<close>

text \<open>
  C5 as stated fails twice over. With only a derivative gain (kp = ki = 0, kd = 1, the
  limits and derivative-on-measurement mode of \<^verbatim>\<open>pid_init\<close>), setpoint 0 and measurement
  10, the update after a reset returns -10 where the formula of the claim gives a zero: the
  derivative term sees the jump from the zeroed previous measurement. With only an
  integral gain (ki = 1) and an integral limit of 5, an error of 100 over dt = 1 returns 5
  where the formula gives 100: the accumulator is clamped before it is used. All values
  are small integers, which binary32 arithmetic computes exactly.
\<close>

theorem pid_reset_update_counterexample:
  "pid_output (pid_update ASSERTS_ENABLED unrounded (pid_reset (pid_init (Val 0) (Val 0) (Val 1)))
                 (Val 0) (Val 10) (Val 1)) = Inr (Val (-10))
   \<and> spec_reset_update_output unrounded (pid_reset (pid_init (Val 0) (Val 0) (Val 1)))
        (Val 0) (Val 10) (Val 1) = NZero
   \<and> pid_set_limits ASSERTS_ENABLED (pid_init (Val 0) (Val 1) (Val 0)) (Val (-100)) (Val 100) (Val 5)
       = Inr ((pid_init (Val 0) (Val 1) (Val 0))\<lparr>integral_limit := Val 5\<rparr>)
   \<and> pid_output (pid_update ASSERTS_ENABLED unrounded
                   (pid_reset ((pid_init (Val 0) (Val 1) (Val 0))\<lparr>integral_limit := Val 5\<rparr>))
                   (Val 100) (Val 0) (Val 1)) = Inr (Val 5)
   \<and> spec_reset_update_output unrounded
        (pid_reset ((pid_init (Val 0) (Val 1) (Val 0))\<lparr>integral_limit := Val 5\<rparr>))
        (Val 100) (Val 0) (Val 1) = Val 100"
  by (simp add: pid_output_def pid_update_def pid_reset_def pid_init_def pid_set_limits_def
      spec_reset_update_output_def clamp_to_def P10_ASSERT_def Let_def f32_exact_defs)

text \<open>
  C5, amended. For every gain configuration, every arithmetic and either build, and for
  every dt > 0, \<^verbatim>\<open>pid_reset\<close> followed by one \<^verbatim>\<open>pid_update\<close> with setpoint s and
  measurement m returns kp*e + ki*I + D clamped to [output_min, output_max], each
  operation rounded by the arithmetic, where e = s - m, where I is 0 + e*dt clamped to plus
  or minus integral_limit, and where D is -kd * ((m - 0) / dt) in
  derivative-on-measurement mode and kd * ((e - 0) / dt) otherwise. The update leaves
  I, e and m in the controller. Neither the output nor the controller left behind depends
  on the integral, the previous error or the previous measurement held before the reset.
\<close>

theorem pid_reset_then_update:
  assumes "f32_lt (Val 0) dt"
  shows "pid_update build F
           (pid_reset (pid\<lparr>integral := i0, prev_error := e0, prev_measurement := m0\<rparr>)) s m dt =
         (let e = f32_sub F s m;
              I = clamp_to (f32_neg (integral_limit pid)) (integral_limit pid)
                    (f32_add F (Val 0) (f32_mul F e dt));
              D = (if use_derivative_on_measurement pid
                   then f32_mul F (f32_neg (kd pid)) (f32_div F (f32_sub F m (Val 0)) dt)
                   else f32_mul F (kd pid) (f32_div F (f32_sub F e (Val 0)) dt))
          in Inr (clamp_to (output_min pid) (output_max pid)
                    (f32_add F (f32_add F (f32_mul F (kp pid) e) (f32_mul F (ki pid) I)) D),
                  pid\<lparr>integral := I, prev_error := e, prev_measurement := m\<rparr>))"
  using assms f32_lt_not_le [OF assms]
  by (simp add: pid_update_def pid_reset_def clamp_to_def P10_ASSERT_def Let_def)

theorem pid_reset_then_update_witness:
  "f32_lt (Val 0) (Val 1)
   \<and> pid_update ASSERTS_ENABLED unrounded
       (pid_reset ((pid_init (Val 2) (Val 1) (Val 3))\<lparr>integral := Val 999, prev_error := Val 7,
                                                      prev_measurement := NaN\<rparr>))
       (Val 50) (Val 40) (Val 1)
     = Inr (Val (-90), (pid_init (Val 2) (Val 1) (Val 3))\<lparr>integral := Val 10, prev_error := Val 10,
                                                          prev_measurement := Val 40\<rparr>)"
proof -
  have h: "f32_lt (Val 0) (Val 1)" by simp
  show ?thesis
    using pid_reset_then_update [OF h, where build = ASSERTS_ENABLED and F = unrounded
        and pid = "pid_init (Val 2) (Val 1) (Val 3)" and ?i0.0 = "Val 999" and ?e0.0 = "Val 7"
        and ?m0.0 = NaN and s = "Val 50" and m = "Val 40"]
    by (simp add: pid_init_def clamp_to_def Let_def f32_exact_defs)
qed

subsection \<open>Anti-windup\<close>

lemma clamp_integral_bounded:
  assumes "f32_le (Val 0) L" and "x \<noteq> NaN"
  shows "f32_le (f32_abs (if f32_lt L x then L else if f32_lt x (f32_neg L) then f32_neg L else x)) L"
  using assms by (cases x; cases L) (auto simp: f32_le_def)

lemma clamp_integral_nan:
  "(if f32_lt L NaN then L else if f32_lt NaN (f32_neg L) then f32_neg L else NaN) = NaN"
  by (cases L) auto

lemma pid_update_integral:
  assumes "P10_ASSERT build (f32_lt (Val 0) dt)" and "\<not> f32_le dt (Val 0)"
  shows "\<exists>out. pid_update build F pid s m dt =
           Inr (out,
                pid\<lparr>integral := (let x = f32_add F (integral pid) (f32_mul F (f32_sub F s m) dt) in
                                  if f32_lt (integral_limit pid) x then integral_limit pid
                                  else if f32_lt x (f32_neg (integral_limit pid))
                                  then f32_neg (integral_limit pid) else x),
                     prev_error := f32_sub F s m, prev_measurement := m\<rparr>)"
  using assms by (simp add: pid_update_def Let_def)

lemma pid_update_step:
  assumes "f32_le (Val 0) (integral_limit pid)"
    and "P10_ASSERT build (f32_lt (Val 0) dt)" and "\<not> f32_le dt (Val 0)"
  shows "\<exists>out pid'. pid_update build F pid s m dt = Inr (out, pid')
           \<and> integral_limit pid' = integral_limit pid
           \<and> (if f32_add F (integral pid) (f32_mul F (f32_sub F s m) dt) = NaN
              then integral pid' = NaN
              else f32_le (f32_abs (integral pid')) (integral_limit pid))"
proof -
  let ?x = "f32_add F (integral pid) (f32_mul F (f32_sub F s m) dt)"
  obtain out where u: "pid_update build F pid s m dt =
           Inr (out,
                pid\<lparr>integral := (let x = ?x in
                                  if f32_lt (integral_limit pid) x then integral_limit pid
                                  else if f32_lt x (f32_neg (integral_limit pid))
                                  then f32_neg (integral_limit pid) else x),
                     prev_error := f32_sub F s m, prev_measurement := m\<rparr>)"
    using pid_update_integral [OF assms(2,3)] by blast
  show ?thesis
  proof (cases "?x = NaN")
    case True
    then show ?thesis using u by (simp add: Let_def clamp_integral_nan)
  next
    case False
    then show ?thesis
      using u clamp_integral_bounded [OF assms(1) False] by (simp add: Let_def)
  qed
qed

lemma pid_nan_spreads:
  "s = NaN \<or> m = NaN \<or> i = NaN \<Longrightarrow> f32_add F i (f32_mul F (f32_sub F s m) dt) = NaN"
  by (auto simp: f32_add_def f32_mul_def f32_sub_def)

lemma pid_update_all_bound:
  assumes "f32_le (Val 0) (integral_limit pid)"
    and "integral pid = NaN \<or> f32_le (f32_abs (integral pid)) (integral_limit pid)"
  shows "case pid_update_all build F pid ins of
           Inl halt \<Rightarrow> build = ASSERTS_ENABLED
         | Inr pid' \<Rightarrow> integral_limit pid' = integral_limit pid
               \<and> (integral pid' = NaN \<or> f32_le (f32_abs (integral pid')) (integral_limit pid))"
  using assms
proof (induction ins arbitrary: pid)
  case Nil
  then show ?case by simp
next
  case (Cons i ins)
  obtain s m dt where i: "i = (s, m, dt)" by (cases i) auto
  show ?case
  proof (cases "P10_ASSERT build (f32_lt (Val 0) dt)")
    case False
    then show ?thesis
      unfolding i by (cases build) (simp_all add: pid_update_def P10_ASSERT_def)
  next
    case asserted: True
    show ?thesis
    proof (cases "f32_le dt (Val 0)")
      case True
      then have "pid_update build F pid s m dt = Inr (Val 0, pid)"
        using asserted by (simp add: pid_update_def)
      then show ?thesis using Cons.IH [OF Cons.prems] unfolding i by simp
    next
      case False
      from pid_update_step [OF Cons.prems(1) asserted False, of F s m]
      obtain out pid' where u: "pid_update build F pid s m dt = Inr (out, pid')"
        and l: "integral_limit pid' = integral_limit pid"
        and b: "integral pid' = NaN \<or> f32_le (f32_abs (integral pid')) (integral_limit pid)"
        by (auto split: if_splits)
      have "f32_le (Val 0) (integral_limit pid')" using Cons.prems(1) l by simp
      moreover have "integral pid' = NaN \<or> f32_le (f32_abs (integral pid')) (integral_limit pid')"
        using b l by simp
      ultimately show ?thesis
        using Cons.IH [of pid'] u l unfolding i by (auto split: sum.splits)
    qed
  qed
qed

text \<open>
  C6 as stated fails for a NaN. The accumulator is limited by two ordered comparisons,
  \<^verbatim>\<open>integral > limit\<close> and \<^verbatim>\<open>integral < -limit\<close>, and both are false of a NaN. With
  the limits of \<^verbatim>\<open>pid_init\<close> (integral_limit 1000), a NaN setpoint and dt = 1, the update
  leaves a NaN in the accumulator, and \<^verbatim>\<open>|integral| <= integral_limit\<close> is false. So it
  is with a NaN measurement, and with a NaN already in the accumulator.
\<close>

theorem pid_integral_nan_counterexample:
  "f32_le (Val 0) (integral_limit (pid_init (Val 0) (Val 1) (Val 0)))
   \<and> f32_lt (Val 0) (Val 1)
   \<and> pid_update ASSERTS_ENABLED unrounded (pid_init (Val 0) (Val 1) (Val 0)) NaN (Val 0) (Val 1)
       = Inr (NaN, (pid_init (Val 0) (Val 1) (Val 0))\<lparr>integral := NaN, prev_error := NaN,
                                                       prev_measurement := Val 0\<rparr>)
   \<and> \<not> f32_le (f32_abs NaN) (integral_limit (pid_init (Val 0) (Val 1) (Val 0)))
   \<and> pid_after (pid_update ASSERTS_ENABLED unrounded (pid_init (Val 0) (Val 1) (Val 0))
                  (Val 0) NaN (Val 1))
       = Inr ((pid_init (Val 0) (Val 1) (Val 0))\<lparr>integral := NaN, prev_error := NaN,
                                                  prev_measurement := NaN\<rparr>)"
  by (simp add: pid_after_def pid_update_def pid_init_def P10_ASSERT_def Let_def f32_exact_defs)

text \<open>
  C6, amended. Take a controller whose \<^verbatim>\<open>integral_limit\<close> is not negative, any
  arithmetic and either build. A \<^verbatim>\<open>pid_update\<close> with dt > 0 returns, keeps the limit, and
  leaves an accumulator that depends on the sum integral + e*dt the call computes: when
  that sum is a NaN, as it is whenever the setpoint, the measurement or the accumulator
  before the call is a NaN, the accumulator is a NaN; when it is not, the accumulator
  satisfies |integral| <= integral_limit, whatever it held before. After any further
  sequence of updates, with any errors, a sustained constant error among them, the
  accumulator is a NaN or within the limit; the sequence ends early only in the asserting
  build, at an update whose dt is not positive.
\<close>

theorem pid_integral_within_limit_or_nan:
  assumes "f32_le (Val 0) (integral_limit pid)" and "f32_lt (Val 0) dt"
  shows "(case pid_update build F pid s m dt of
            Inl halt \<Rightarrow> False
          | Inr (out, pid') \<Rightarrow> integral_limit pid' = integral_limit pid
                \<and> (if f32_add F (integral pid) (f32_mul F (f32_sub F s m) dt) = NaN
                   then integral pid' = NaN
                   else f32_le (f32_abs (integral pid')) (integral_limit pid)))
       \<and> (s = NaN \<or> m = NaN \<or> integral pid = NaN \<longrightarrow>
            f32_add F (integral pid) (f32_mul F (f32_sub F s m) dt) = NaN)
       \<and> (case pid_update_all build F pid ((s, m, dt) # rest) of
            Inl halt \<Rightarrow> build = ASSERTS_ENABLED
          | Inr pid' \<Rightarrow> integral_limit pid' = integral_limit pid
                \<and> (integral pid' = NaN \<or> f32_le (f32_abs (integral pid')) (integral_limit pid)))"
proof -
  have a: "P10_ASSERT build (f32_lt (Val 0) dt)" using assms(2) by (simp add: P10_ASSERT_def)
  have n: "\<not> f32_le dt (Val 0)" using assms(2) by (rule f32_lt_not_le)
  from pid_update_step [OF assms(1) a n, of F s m]
  obtain out pid' where u: "pid_update build F pid s m dt = Inr (out, pid')"
    and l: "integral_limit pid' = integral_limit pid"
    and c: "if f32_add F (integral pid) (f32_mul F (f32_sub F s m) dt) = NaN
            then integral pid' = NaN
            else f32_le (f32_abs (integral pid')) (integral_limit pid)"
    by blast
  have l': "f32_le (Val 0) (integral_limit pid')" using assms(1) l by simp
  have b: "integral pid' = NaN \<or> f32_le (f32_abs (integral pid')) (integral_limit pid')"
    using c l by (auto split: if_splits)
  have one: "case pid_update build F pid s m dt of
            Inl halt \<Rightarrow> False
          | Inr (out, pid') \<Rightarrow> integral_limit pid' = integral_limit pid
                \<and> (if f32_add F (integral pid) (f32_mul F (f32_sub F s m) dt) = NaN
                   then integral pid' = NaN
                   else f32_le (f32_abs (integral pid')) (integral_limit pid))"
    using u l c by simp
  have two: "s = NaN \<or> m = NaN \<or> integral pid = NaN \<longrightarrow>
            f32_add F (integral pid) (f32_mul F (f32_sub F s m) dt) = NaN"
    using pid_nan_spreads [of s m "integral pid" F dt] by blast
  have three: "case pid_update_all build F pid ((s, m, dt) # rest) of
            Inl halt \<Rightarrow> build = ASSERTS_ENABLED
          | Inr pid' \<Rightarrow> integral_limit pid' = integral_limit pid
                \<and> (integral pid' = NaN \<or> f32_le (f32_abs (integral pid')) (integral_limit pid))"
    using pid_update_all_bound [OF l' b, of build F rest] u l
    by (auto split: sum.splits)
  from one two three show ?thesis by blast
qed

theorem pid_integral_within_limit_or_nan_witness:
  "f32_le (Val 0) (integral_limit ((pid_init (Val 0) (Val 1) (Val 0))\<lparr>integral_limit := Val 5\<rparr>))
   \<and> f32_lt (Val 0) (Val 1)
   \<and> pid_after (pid_update ASSERTS_ENABLED unrounded
                  ((pid_init (Val 0) (Val 1) (Val 0))\<lparr>integral_limit := Val 5\<rparr>)
                  (Val 100) (Val 0) (Val 1))
       = Inr ((pid_init (Val 0) (Val 1) (Val 0))\<lparr>integral_limit := Val 5, integral := Val 5,
                 prev_error := Val 100, prev_measurement := Val 0\<rparr>)
   \<and> pid_update_all ASSERTS_ENABLED unrounded
                  ((pid_init (Val 0) (Val 1) (Val 0))\<lparr>integral_limit := Val 5\<rparr>)
                  [(Val 100, Val 0, Val 1), (Val 100, Val 0, Val 1), (Val 100, Val 0, Val 1)]
       = Inr ((pid_init (Val 0) (Val 1) (Val 0))\<lparr>integral_limit := Val 5, integral := Val 5,
                 prev_error := Val 100, prev_measurement := Val 0\<rparr>)
   \<and> f32_le (f32_abs (Val 5)) (Val 5)"
proof -
  let ?p = "(pid_init (Val 0) (Val 1) (Val 0))\<lparr>integral_limit := Val 5\<rparr>"
  have l: "f32_le (Val 0) (integral_limit ?p)" by (simp add: f32_le_def)
  have d: "f32_lt (Val 0) (Val 1)" by simp
  have u: "pid_update ASSERTS_ENABLED unrounded ?p (Val 100) (Val 0) (Val 1)
            = Inr (Val 5, ?p\<lparr>integral := Val 5, prev_error := Val 100, prev_measurement := Val 0\<rparr>)"
    by (simp add: pid_update_def pid_init_def P10_ASSERT_def Let_def f32_exact_defs)
  have u2: "pid_update ASSERTS_ENABLED unrounded
              (?p\<lparr>integral := Val 5, prev_error := Val 100, prev_measurement := Val 0\<rparr>)
              (Val 100) (Val 0) (Val 1)
            = Inr (Val 5, ?p\<lparr>integral := Val 5, prev_error := Val 100, prev_measurement := Val 0\<rparr>)"
    by (simp add: pid_update_def pid_init_def P10_ASSERT_def Let_def f32_exact_defs)
  have v: "pid_update_all ASSERTS_ENABLED unrounded ?p
             [(Val 100, Val 0, Val 1), (Val 100, Val 0, Val 1), (Val 100, Val 0, Val 1)]
            = Inr (?p\<lparr>integral := Val 5, prev_error := Val 100, prev_measurement := Val 0\<rparr>)"
    by (simp add: u u2)
  show ?thesis
    using pid_integral_within_limit_or_nan [OF l d, where build = ASSERTS_ENABLED
        and F = unrounded and s = "Val 100" and m = "Val 0"
        and rest = "[(Val 100, Val 0, Val 1), (Val 100, Val 0, Val 1)]"] l u v
    by (simp add: pid_after_def f32_le_def)
qed

section \<open>Properties: event log\<close>

subsection \<open>The ring buffer returns the newest entries in reverse order\<close>

lemma log_init_holds: "log_holds log_init []"
  by (simp add: log_holds_def log_init_def EVENT_LOG_SIZE_def)

lemma mod32_sub_ge:
  assumes "(x::nat) < 32" and "y \<le> x"
  shows "(x + 32 - y) mod 32 = x - y"
proof -
  from assms have e: "x + 32 - y = (x - y) + 32" by linarith
  have "(x + 32 - y) mod 32 = ((x - y) + 32) mod 32" by (simp only: e)
  also have "\<dots> = (x - y) mod 32" by (rule mod_add_self2)
  also from assms have "\<dots> = x - y" by (intro mod_less) linarith
  finally show ?thesis .
qed

lemma mod32_sub_lt:
  assumes "(y::nat) < 32" and "x < y"
  shows "(x + 32 - y) mod 32 = 32 - (y - x)"
proof -
  from assms have a: "x + 32 - y = 32 - (y - x)" by linarith
  from assms have "x + 32 - y < 32" by linarith
  then have "(x + 32 - y) mod 32 = x + 32 - y" by (rule mod_less)
  with a show ?thesis by (simp only:)
qed

lemma add32_sub:
  "(k::nat) < 32 \<Longrightarrow> m + 32 - k = m + (32 - k)"
  by linarith

lemma mod32_shift:
  assumes "(k::nat) < 32" and "k \<le> a"
  shows "(a mod 32 + 32 - k) mod 32 = (a - k) mod 32"
proof -
  have "(a mod 32 + 32 - k) mod 32 = (a mod 32 + (32 - k)) mod 32"
    by (simp only: add32_sub [OF assms(1)])
  also have "\<dots> = (a + (32 - k)) mod 32" by (rule mod_add_left_eq)
  also have "\<dots> = ((a - k) + 32) mod 32"
  proof -
    from assms have "a + (32 - k) = (a - k) + 32" by linarith
    then show ?thesis by (simp only:)
  qed
  also have "\<dots> = (a - k) mod 32" by (rule mod_add_self2)
  finally show ?thesis .
qed

lemma mod32_distinct:
  assumes "(i::nat) < n" and "n < i + 32"
  shows "i mod 32 \<noteq> n mod 32"
proof
  assume "i mod 32 = n mod 32"
  then have "n mod 32 = i mod 32" by (rule sym)
  with assms(1) have "32 dvd n - i"
    by (simp only: mod_eq_dvd_iff_nat less_imp_le)
  moreover from assms have "0 < n - i" and "n - i < 32" by linarith+
  ultimately show False
    using nat_dvd_not_less by blast
qed
lemma unat_next_index:
  assumes "unat idx < 32"
  shows "unat (next_index idx) = Suc (unat idx) mod 32"
proof -
  have a: "unat (idx + 1) = Suc (unat idx)"
    using assms by (simp add: unat_word_ariths)
  show ?thesis
  proof (cases "unat idx = 31")
    case True
    then show ?thesis using a
      by (simp add: next_index_def EVENT_LOG_SIZE_def word_le_nat_alt Let_def)
  next
    case False
    with assms have "Suc (unat idx) < 32" by simp
    then show ?thesis using a
      by (simp add: next_index_def EVENT_LOG_SIZE_def word_le_nat_alt Let_def)
  qed
qed

lemma unat_wrap_sub:
  assumes "unat a < 32" and "unat b < 32"
  shows "unat (wrap_sub a b) = (unat a + 32 - unat b) mod 32"
proof (cases "b \<le> a")
  case True
  then have d: "unat (a - b) = unat a - unat b"
    by (simp add: unat_sub)
  from True have ub: "unat b \<le> unat a"
    by (simp add: word_le_nat_alt)
  show ?thesis
    using True d mod32_sub_ge [OF assms(1) ub] by (simp add: wrap_sub_def)
next
  case False
  then have lt: "unat a < unat b"
    by (simp add: word_le_nat_alt)
  then have "a \<le> b" by (simp add: word_le_nat_alt)
  then have ba: "unat (b - a) = unat b - unat a"
    by (simp add: unat_sub)
  have "b - a \<le> 32"
    using ba assms by (simp add: word_le_nat_alt)
  then have "unat (32 - (b - a)) = 32 - (unat b - unat a)"
    using ba by (simp add: unat_sub)
  then show ?thesis
    using False mod32_sub_lt [OF assms(2) lt] by (simp add: wrap_sub_def EVENT_LOG_SIZE_def)
qed

lemma log_events_snoc:
  "log_events lg (es @ [e]) =
     log_event (log_events lg es) (timestamp_ms e) (code e) (param1 e) (param2 e)"
  by (induction es arbitrary: lg) simp_all

lemma log_event_holds:
  assumes "log_holds lg es"
  shows "log_holds (log_event lg (timestamp_ms e) (code e) (param1 e) (param2 e)) (es @ [e])"
proof -
  let ?n = "length es"
  from assms have len: "length (entries lg) = 32"
    and hd: "unat (head lg) = ?n mod 32"
    and cnt: "unat (count lg) = min ?n 32"
    and ent: "\<And>i. i < ?n \<Longrightarrow> ?n \<le> i + 32 \<Longrightarrow> entries lg ! (i mod 32) = es ! i"
    by (simp_all add: log_holds_def)
  have e_eq: "\<lparr>timestamp_ms = timestamp_ms e, code = code e, param1 = param1 e, param2 = param2 e\<rparr> = e"
    by simp
  have h32: "unat (head lg) < 32" using hd by simp
  have 1: "unat (next_index (head lg)) = Suc ?n mod 32"
    using unat_next_index [OF h32] hd by (simp add: mod_Suc)
  have 2: "unat (if count lg < EVENT_LOG_SIZE then count lg + 1 else count lg) = min (Suc ?n) 32"
  proof (cases "?n < 32")
    case True
    then have "unat (count lg) = ?n" using cnt by simp
    moreover from this True have "unat (count lg + 1) = Suc ?n"
      by (simp add: unat_word_ariths)
    ultimately show ?thesis using True
      by (simp add: EVENT_LOG_SIZE_def word_less_nat_alt)
  next
    case False
    then have "unat (count lg) = 32" using cnt by simp
    then show ?thesis using False
      by (simp add: EVENT_LOG_SIZE_def word_less_nat_alt)
  qed
  have 3: "(entries lg)[?n mod 32 := e] ! (i mod 32) = (es @ [e]) ! i"
    if "i < Suc ?n" and "Suc ?n \<le> i + 32" for i
  proof (cases "i = ?n")
    case True
    then show ?thesis using len by simp
  next
    case False
    with that have lt: "i < ?n" and near: "?n \<le> i + 32" and d: "?n - i < 32" by simp_all
    have "i mod 32 \<noteq> ?n mod 32"
      using lt d by (intro mod32_distinct) arith+
    then show ?thesis using ent [OF lt near] lt by (simp add: nth_append)
  qed
  show ?thesis
    unfolding log_holds_def log_event_def
    using len 1 2 3 hd by (simp add: e_eq)
qed

lemma log_events_holds: "log_holds (log_events log_init es) es"
proof (induction es rule: rev_induct)
  case Nil
  then show ?case by (simp add: log_init_holds)
next
  case (snoc e es)
  then show ?case by (simp add: log_events_snoc log_event_holds)
qed

lemma log_holds_get_newest:
  assumes "log_holds lg es"
  shows "log_get_newest lg n =
           (if unat n < min (length es) 32 then Some (rev es ! unat n) else None)"
proof (cases "unat n < min (length es) 32")
  case False
  then have "min (length es) 32 \<le> unat n"
    by arith
  moreover from assms have "unat (count lg) = min (length es) 32"
    by (simp add: log_holds_def)
  ultimately have "unat (count lg) \<le> unat n"
    by simp
  then show ?thesis using False
    by (simp add: log_get_newest_def word_le_nat_alt)
next
  case True
  let ?n = "length es"
  from assms have hd: "unat (head lg) = ?n mod 32"
    and cnt: "unat (count lg) = min ?n 32"
    and ent: "\<And>i. i < ?n \<Longrightarrow> ?n \<le> i + 32 \<Longrightarrow> entries lg ! (i mod 32) = es ! i"
    by (simp_all add: log_holds_def)
  from True have n32: "unat n < 32" and nlen: "unat n < ?n" by simp_all
  have h32: "unat (head lg) < 32" using hd by simp
  have one: "unat (1::8 word) < 32" by simp
  have "unat (wrap_sub (head lg) 1) = (unat (head lg) + 32 - unat (1::8 word)) mod 32"
    by (rule unat_wrap_sub [OF h32 one])
  also have "\<dots> = (?n mod 32 + 32 - 1) mod 32"
    by (simp only: hd unat_1)
  also have "\<dots> = (?n - 1) mod 32"
    using nlen by (intro mod32_shift) simp_all
  finally have a: "unat (wrap_sub (head lg) 1) = (?n - 1) mod 32" .
  then have a32: "unat (wrap_sub (head lg) 1) < 32" by simp
  have "unat (wrap_sub (wrap_sub (head lg) 1) n) =
          (unat (wrap_sub (head lg) 1) + 32 - unat n) mod 32"
    by (rule unat_wrap_sub [OF a32 n32])
  also have "\<dots> = ((?n - 1) mod 32 + 32 - unat n) mod 32"
    by (simp only: a)
  also have "\<dots> = (?n - 1 - unat n) mod 32"
    using nlen n32 by (intro mod32_shift) simp_all
  finally have b: "unat (wrap_sub (wrap_sub (head lg) 1) n) = (?n - 1 - unat n) mod 32" .
  have "entries lg ! ((?n - 1 - unat n) mod 32) = es ! (?n - 1 - unat n)"
    using ent [of "?n - 1 - unat n"] nlen n32 by simp
  moreover have "rev es ! unat n = es ! (?n - 1 - unat n)"
    using nlen by (simp add: rev_nth)
  moreover have "\<not> count lg \<le> n"
  proof -
    from True have "unat n < min ?n 32" .
    then have "unat n < unat (count lg)" by (simp only: cnt)
    then show ?thesis by (simp add: word_le_nat_alt)
  qed
  ultimately show ?thesis using True b
    by (simp add: log_get_newest_def Let_def)
qed

lemma log_index_in_range:
  "unat (head (log_events log_init es)) < length (entries (log_events log_init es))"
  using log_events_holds [of es] by (simp add: log_holds_def)

text \<open>
  C8. After \<^verbatim>\<open>log_init\<close> and any sequence \<open>es\<close> of appended entries, the count is the
  number of appends capped at \<^verbatim>\<open>EVENT_LOG_SIZE\<close>, and \<^verbatim>\<open>log_get_newest\<close> with index
  \<open>n\<close> finds the (n+1)-th most recently appended entry when \<open>n\<close> is below the count and
  reports not-found otherwise. So after capacity + k appends exactly the last capacity
  entries can be read, index 0 is the newest, and the k oldest cannot be reached by any
  index.
\<close>

theorem log_newest_first:
  "unat (log_count (log_events log_init es)) = min (length es) (unat EVENT_LOG_SIZE)
   \<and> log_get_newest (log_events log_init es) n =
       (if unat n < min (length es) (unat EVENT_LOG_SIZE) then Some (rev es ! unat n) else None)"
  using log_events_holds [of es] log_holds_get_newest [OF log_events_holds, of es n]
  by (simp add: log_count_def log_holds_def EVENT_LOG_SIZE_def)

theorem log_newest_first_witness:
  "log_get_newest (log_events log_init (map numbered_entry [0..<34])) 0 = Some (numbered_entry 33)
   \<and> log_get_newest (log_events log_init (map numbered_entry [0..<34])) 31 = Some (numbered_entry 2)
   \<and> log_get_newest (log_events log_init (map numbered_entry [0..<34])) 32 = None
   \<and> unat (log_count (log_events log_init (map numbered_entry [0..<34]))) = 32"
proof -
  let ?es = "map numbered_entry [0..<34]"
  have "log_get_newest (log_events log_init ?es) 0 = Some (numbered_entry 33)"
    using log_newest_first [of ?es 0] by (simp add: EVENT_LOG_SIZE_def rev_nth)
  moreover have "log_get_newest (log_events log_init ?es) 31 = Some (numbered_entry 2)"
    using log_newest_first [of ?es 31] by (simp add: EVENT_LOG_SIZE_def rev_nth numbered_entry_def)
  moreover have "log_get_newest (log_events log_init ?es) 32 = None"
    using log_newest_first [of ?es 32] by (simp add: EVENT_LOG_SIZE_def)
  moreover have "unat (log_count (log_events log_init ?es)) = 32"
    using log_newest_first [of ?es 0] by (simp add: EVENT_LOG_SIZE_def)
  ultimately show ?thesis by (simp only: simp_thms)
qed

section \<open>Properties: ballast controller\<close>

subsection \<open>Tolerance band\<close>

lemma ballast_idle_within_tolerance:
  assumes "ballast_state ctrl = BALLAST_STATE_IDLE"
    and "\<bar>target_level ctrl - current_level ctrl\<bar> \<le> BALLAST_LEVEL_TOLERANCE"
  shows "ballast_ctrl_update ctrl now_ms = (ctrl, 0, False)"
  using assms by (simp add: ballast_ctrl_update_def Let_def)

text \<open>
  C9. In Idle, an update whose level error satisfies |target - current| <= tolerance
  stays in Idle with pump speed 0 and the valve closed. An update that leaves Idle had an
  error strictly above the tolerance, and goes to Filling exactly when target > current
  and to Draining exactly when target < current. In Holding, an update goes to Idle exactly
  when the error is strictly above twice the tolerance and stays in Holding otherwise, with
  pump speed 0 and the valve closed.
\<close>

theorem ballast_tolerance_band:
  "(ballast_state ctrl = BALLAST_STATE_IDLE
      \<and> \<bar>target_level ctrl - current_level ctrl\<bar> \<le> BALLAST_LEVEL_TOLERANCE \<longrightarrow>
        ballast_state (ctrl_out (ballast_ctrl_update ctrl now_ms)) = BALLAST_STATE_IDLE
        \<and> pump_speed_out (ballast_ctrl_update ctrl now_ms) = 0
        \<and> \<not> valve_open_out (ballast_ctrl_update ctrl now_ms))
   \<and> (ballast_state ctrl = BALLAST_STATE_IDLE
      \<and> ballast_state (ctrl_out (ballast_ctrl_update ctrl now_ms)) \<noteq> BALLAST_STATE_IDLE \<longrightarrow>
        \<bar>target_level ctrl - current_level ctrl\<bar> > BALLAST_LEVEL_TOLERANCE
        \<and> (ballast_state (ctrl_out (ballast_ctrl_update ctrl now_ms)) = BALLAST_STATE_FILLING
             \<longleftrightarrow> target_level ctrl > current_level ctrl)
        \<and> (ballast_state (ctrl_out (ballast_ctrl_update ctrl now_ms)) = BALLAST_STATE_DRAINING
             \<longleftrightarrow> target_level ctrl < current_level ctrl))
   \<and> (ballast_state ctrl = BALLAST_STATE_HOLDING \<longrightarrow>
        (ballast_state (ctrl_out (ballast_ctrl_update ctrl now_ms)) = BALLAST_STATE_IDLE
           \<longleftrightarrow> \<bar>target_level ctrl - current_level ctrl\<bar> > 2 * BALLAST_LEVEL_TOLERANCE)
        \<and> (ballast_state (ctrl_out (ballast_ctrl_update ctrl now_ms)) = BALLAST_STATE_HOLDING
           \<longleftrightarrow> \<bar>target_level ctrl - current_level ctrl\<bar> \<le> 2 * BALLAST_LEVEL_TOLERANCE)
        \<and> pump_speed_out (ballast_ctrl_update ctrl now_ms) = 0
        \<and> \<not> valve_open_out (ballast_ctrl_update ctrl now_ms))"
  by (auto simp: ballast_ctrl_update_def Let_def ctrl_out_def pump_speed_out_def valve_open_out_def
      BALLAST_LEVEL_TOLERANCE_def)

theorem ballast_tolerance_band_witness:
  "ballast_ctrl_update
     (ballast_ctrl_init\<lparr>target_level := 5\<rparr>) 1000
     = (ballast_ctrl_init\<lparr>target_level := 5\<rparr>, 0, False)
   \<and> ballast_state (ctrl_out (ballast_ctrl_update
        (ballast_ctrl_init\<lparr>target_level := 6\<rparr>) 1000)) = BALLAST_STATE_FILLING
   \<and> ballast_state (ctrl_out (ballast_ctrl_update
        (ballast_ctrl_init\<lparr>target_level := -6\<rparr>) 1000)) = BALLAST_STATE_DRAINING
   \<and> ballast_state (ctrl_out (ballast_ctrl_update
        (ballast_ctrl_init\<lparr>ballast_state := BALLAST_STATE_HOLDING, target_level := 10\<rparr>) 1000))
       = BALLAST_STATE_HOLDING
   \<and> ballast_state (ctrl_out (ballast_ctrl_update
        (ballast_ctrl_init\<lparr>ballast_state := BALLAST_STATE_HOLDING, target_level := 11\<rparr>) 1000))
       = BALLAST_STATE_IDLE"
proof -
  have 1: "ballast_ctrl_update (ballast_ctrl_init\<lparr>target_level := 5\<rparr>) 1000
             = (ballast_ctrl_init\<lparr>target_level := 5\<rparr>, 0, False)"
    using ballast_tolerance_band [of "ballast_ctrl_init\<lparr>target_level := 5\<rparr>" 1000]
    by (simp add: ballast_ctrl_init_def BALLAST_LEVEL_TOLERANCE_def ctrl_out_def
        pump_speed_out_def valve_open_out_def ballast_ctrl_update_def)
  have 2: "ballast_state (ctrl_out (ballast_ctrl_update
             (ballast_ctrl_init\<lparr>target_level := 6\<rparr>) 1000)) = BALLAST_STATE_FILLING"
    using ballast_tolerance_band [of "ballast_ctrl_init\<lparr>target_level := 6\<rparr>" 1000]
    by (simp add: ballast_ctrl_init_def BALLAST_LEVEL_TOLERANCE_def ctrl_out_def
        ballast_ctrl_update_def)
  have 3: "ballast_state (ctrl_out (ballast_ctrl_update
             (ballast_ctrl_init\<lparr>target_level := -6\<rparr>) 1000)) = BALLAST_STATE_DRAINING"
    using ballast_tolerance_band [of "ballast_ctrl_init\<lparr>target_level := -6\<rparr>" 1000]
    by (simp add: ballast_ctrl_init_def BALLAST_LEVEL_TOLERANCE_def ctrl_out_def
        ballast_ctrl_update_def)
  have 4: "ballast_state (ctrl_out (ballast_ctrl_update
             (ballast_ctrl_init\<lparr>ballast_state := BALLAST_STATE_HOLDING, target_level := 10\<rparr>) 1000))
           = BALLAST_STATE_HOLDING"
    using ballast_tolerance_band
      [of "ballast_ctrl_init\<lparr>ballast_state := BALLAST_STATE_HOLDING, target_level := 10\<rparr>" 1000]
    by (simp add: ballast_ctrl_init_def BALLAST_LEVEL_TOLERANCE_def)
  have 5: "ballast_state (ctrl_out (ballast_ctrl_update
             (ballast_ctrl_init\<lparr>ballast_state := BALLAST_STATE_HOLDING, target_level := 11\<rparr>) 1000))
           = BALLAST_STATE_IDLE"
    using ballast_tolerance_band
      [of "ballast_ctrl_init\<lparr>ballast_state := BALLAST_STATE_HOLDING, target_level := 11\<rparr>" 1000]
    by (simp add: ballast_ctrl_init_def BALLAST_LEVEL_TOLERANCE_def)
  from 1 2 3 4 5 show ?thesis by (simp only: simp_thms)
qed

subsection \<open>Level integration\<close>

lemma ballast_delta_x1000_bound:
  "0 \<le> ballast_delta_x1000 dt_ms fill_time \<and> ballast_delta_x1000 dt_ms fill_time \<le> 200000"
proof (cases "fill_time = 0")
  case True
  then show ?thesis by (simp add: ballast_delta_x1000_def)
next
  case False
  let ?d = "uint (clamp_dt_ms dt_ms fill_time)"
  let ?f = "uint fill_time"
  have f: "0 < ?f" using False by (simp add: word_neq_0_conv word_less_def)
  have "clamp_dt_ms dt_ms fill_time \<le> fill_time"
    by (auto simp: clamp_dt_ms_def not_less)
  then have le: "?d \<le> ?f" by (simp add: word_le_def)
  have d0: "0 \<le> ?d" by simp
  have "?d * 200000 div ?f \<le> ?f * 200000 div ?f"
    using le f by (intro zdiv_mono1) simp_all
  also have "\<dots> = 200000" using f by simp
  finally have up: "?d * 200000 div ?f \<le> 200000" .
  have lo: "0 \<le> ?d * 200000 div ?f"
    using d0 f by (intro pos_imp_zdiv_nonneg_iff [THEN iffD2]) simp_all
  show ?thesis using False up lo
    by (simp add: ballast_delta_x1000_def Let_def BALLAST_FULL_RANGE_UNITS_def
        BALLAST_SCALE_X1000_def INT32_MAX_def)
qed

lemma clamp_i8_range: "lo \<le> hi \<Longrightarrow> lo \<le> clamp_i8 v lo hi \<and> clamp_i8 v lo hi \<le> hi"
  by (simp add: clamp_i8_def)

lemma ballast_update_level_unset:
  assumes "last_update_ms ctrl = 0"
  shows "ballast_update_level ctrl direction now_ms = ctrl\<lparr>last_update_ms := now_ms\<rparr>"
  using assms by (simp add: ballast_update_level_def)

lemma ballast_update_level_in_range:
  assumes "ballast_in_range ctrl"
  shows "ballast_in_range (ballast_update_level ctrl direction now_ms)"
proof (cases "last_update_ms ctrl = 0")
  case True
  then show ?thesis using assms
    by (simp add: ballast_update_level_unset ballast_in_range_def)
next
  case False
  have "-100 \<le> clamp_i8 v (-100) 100 \<and> clamp_i8 v (-100) 100 \<le> 100" for v
    by (rule clamp_i8_range) simp
  then show ?thesis using assms False
    by (simp add: ballast_update_level_def ballast_in_range_def Let_def BALLAST_SCALE_X1000_def)
qed

lemma ballast_ctrl_set_target_in_range:
  assumes "ballast_in_range ctrl"
  shows "ballast_in_range (ballast_ctrl_set_target ctrl level)"
proof -
  have "-100 \<le> clamp_i8 level (-100) 100 \<and> clamp_i8 level (-100) 100 \<le> 100"
    by (rule clamp_i8_range) simp
  then show ?thesis using assms
    by (simp add: ballast_ctrl_set_target_def ballast_in_range_def)
qed

lemma ballast_ctrl_update_in_range:
  assumes "ballast_in_range ctrl"
  shows "ballast_in_range (ctrl_out (ballast_ctrl_update ctrl now_ms))"
proof (cases "ballast_state ctrl")
  case BALLAST_STATE_IDLE
  then show ?thesis using assms
    by (simp add: ballast_ctrl_update_def ctrl_out_def ballast_in_range_def Let_def)
next
  case BALLAST_STATE_FILLING
  have "ballast_in_range (ballast_update_level ctrl 1 now_ms)"
    using assms by (rule ballast_update_level_in_range)
  then show ?thesis using BALLAST_STATE_FILLING
    by (simp add: ballast_ctrl_update_def ctrl_out_def ballast_in_range_def Let_def
        BALLAST_SCALE_X1000_def)
next
  case BALLAST_STATE_DRAINING
  have "ballast_in_range (ballast_update_level ctrl (-1) now_ms)"
    using assms by (rule ballast_update_level_in_range)
  then show ?thesis using BALLAST_STATE_DRAINING
    by (simp add: ballast_ctrl_update_def ctrl_out_def ballast_in_range_def Let_def
        BALLAST_SCALE_X1000_def)
next
  case BALLAST_STATE_HOLDING
  then show ?thesis using assms
    by (simp add: ballast_ctrl_update_def ctrl_out_def ballast_in_range_def Let_def)
qed

lemma ballast_reachable_in_range:
  "ctrl \<in> ballast_reachable \<Longrightarrow> ballast_in_range ctrl"
proof (induction rule: ballast_reachable.induct)
  case b_init
  show ?case by (simp add: ballast_ctrl_init_def ballast_in_range_def)
next
  case (b_set_target ctrl level)
  then show ?case by (simp add: ballast_ctrl_set_target_in_range)
next
  case (b_update ctrl now_ms)
  then show ?case by (simp add: ballast_ctrl_update_in_range)
qed

lemma ballast_leaving_idle:
  assumes "ballast_state ctrl = BALLAST_STATE_IDLE"
    and "ballast_state (ctrl_out (ballast_ctrl_update ctrl now_ms)) \<noteq> BALLAST_STATE_IDLE"
  shows "last_update_ms (ctrl_out (ballast_ctrl_update ctrl now_ms)) = 0
       \<and> current_level (ctrl_out (ballast_ctrl_update ctrl now_ms)) = current_level ctrl
       \<and> current_level_x1000 (ctrl_out (ballast_ctrl_update ctrl now_ms)) = current_level_x1000 ctrl
       \<and> target_level (ctrl_out (ballast_ctrl_update ctrl now_ms)) = target_level ctrl
       \<and> (ballast_state (ctrl_out (ballast_ctrl_update ctrl now_ms)) = BALLAST_STATE_FILLING
            \<and> current_level ctrl < target_level ctrl
          \<or> ballast_state (ctrl_out (ballast_ctrl_update ctrl now_ms)) = BALLAST_STATE_DRAINING
            \<and> target_level ctrl < current_level ctrl)"
  using assms
  by (auto simp: ballast_ctrl_update_def ctrl_out_def Let_def BALLAST_LEVEL_TOLERANCE_def
      split: if_splits)

lemma ctrl_out_tuple: "ctrl_out (c, p, v) = c"
  by (simp add: ctrl_out_def)

lemma ballast_first_step_after_idle:
  assumes "ballast_state ctrl = BALLAST_STATE_IDLE"
    and "ballast_state (ctrl_out (ballast_ctrl_update ctrl now_ms)) \<noteq> BALLAST_STATE_IDLE"
  shows "ctrl_out (ballast_ctrl_update (ctrl_out (ballast_ctrl_update ctrl now_ms)) now2) =
           (ctrl_out (ballast_ctrl_update ctrl now_ms))\<lparr>last_update_ms := now2\<rparr>"
proof -
  define c where "c = ctrl_out (ballast_ctrl_update ctrl now_ms)"
  from ballast_leaving_idle [OF assms]
  have z: "last_update_ms c = 0"
    and d: "ballast_state c = BALLAST_STATE_FILLING \<and> current_level c < target_level c
          \<or> ballast_state c = BALLAST_STATE_DRAINING \<and> target_level c < current_level c"
    unfolding c_def by simp_all
  from d have "ballast_ctrl_update c now2 = (c\<lparr>last_update_ms := now2\<rparr>, 100, False)
             \<or> ballast_ctrl_update c now2 = (c\<lparr>last_update_ms := now2\<rparr>, -100, True)"
    by (auto simp: ballast_ctrl_update_def ballast_update_level_unset [OF z] Let_def)
  then have "ctrl_out (ballast_ctrl_update c now2) = c\<lparr>last_update_ms := now2\<rparr>"
    by (auto simp: ctrl_out_tuple)
  then show ?thesis unfolding c_def .
qed

text \<open>
  C10. For a controller driven through its interface: when \<^verbatim>\<open>ballast_ctrl_update\<close>
  leaves Idle for Filling or Draining it stores 0 in \<^verbatim>\<open>last_update_ms\<close>; the next
  \<^verbatim>\<open>ballast_update_level\<close>, in either direction, at any time \<open>now2\<close> and even after a
  change of target, only stores \<open>now2\<close> and leaves both level estimates as they were; so
  does the whole next \<^verbatim>\<open>ballast_ctrl_update\<close>. After every update the level estimate
  lies in [-100, 100] and the fixed-point estimate in [-100000, 100000].
\<close>

theorem ballast_no_stale_timestamp:
  assumes "ctrl \<in> ballast_reachable"
  shows "(ballast_state ctrl = BALLAST_STATE_IDLE
          \<and> ballast_state (ctrl_out (ballast_ctrl_update ctrl now_ms)) \<noteq> BALLAST_STATE_IDLE \<longrightarrow>
            last_update_ms (ctrl_out (ballast_ctrl_update ctrl now_ms)) = 0
            \<and> ballast_update_level
                 (ballast_ctrl_set_target (ctrl_out (ballast_ctrl_update ctrl now_ms)) level)
                 direction now2
               = (ballast_ctrl_set_target (ctrl_out (ballast_ctrl_update ctrl now_ms)) level)
                   \<lparr>last_update_ms := now2\<rparr>
            \<and> ctrl_out (ballast_ctrl_update (ctrl_out (ballast_ctrl_update ctrl now_ms)) now2)
               = (ctrl_out (ballast_ctrl_update ctrl now_ms))\<lparr>last_update_ms := now2\<rparr>)
       \<and> -100 \<le> current_level (ctrl_out (ballast_ctrl_update ctrl now_ms))
       \<and> current_level (ctrl_out (ballast_ctrl_update ctrl now_ms)) \<le> 100
       \<and> -100000 \<le> current_level_x1000 (ctrl_out (ballast_ctrl_update ctrl now_ms))
       \<and> current_level_x1000 (ctrl_out (ballast_ctrl_update ctrl now_ms)) \<le> 100000"
proof -
  let ?c = "ctrl_out (ballast_ctrl_update ctrl now_ms)"
  have r: "ballast_in_range ?c"
    using assms by (intro ballast_ctrl_update_in_range ballast_reachable_in_range)
  have "last_update_ms ?c = 0
        \<and> ballast_update_level (ballast_ctrl_set_target ?c level) direction now2
           = (ballast_ctrl_set_target ?c level)\<lparr>last_update_ms := now2\<rparr>
        \<and> ctrl_out (ballast_ctrl_update ?c now2) = ?c\<lparr>last_update_ms := now2\<rparr>"
    if a: "ballast_state ctrl = BALLAST_STATE_IDLE" and b: "ballast_state ?c \<noteq> BALLAST_STATE_IDLE"
  proof -
    from ballast_leaving_idle [OF a b] have z: "last_update_ms ?c = 0" by simp
    then have "last_update_ms (ballast_ctrl_set_target ?c level) = 0"
      by (simp add: ballast_ctrl_set_target_def)
    then have "ballast_update_level (ballast_ctrl_set_target ?c level) direction now2
           = (ballast_ctrl_set_target ?c level)\<lparr>last_update_ms := now2\<rparr>"
      by (rule ballast_update_level_unset)
    with z ballast_first_step_after_idle [OF a b, of now2] show ?thesis by simp
  qed
  with r show ?thesis
    by (simp add: ballast_in_range_def)
qed

theorem ballast_no_stale_timestamp_witness:
  "ballast_ctrl_set_target ballast_ctrl_init 50 \<in> ballast_reachable
   \<and> ballast_state (ctrl_out (ballast_ctrl_update (ballast_ctrl_set_target ballast_ctrl_init 50) 1000))
       = BALLAST_STATE_FILLING
   \<and> last_update_ms (ctrl_out (ballast_ctrl_update (ballast_ctrl_set_target ballast_ctrl_init 50) 1000)) = 0
   \<and> current_level_x1000 (ctrl_out (ballast_ctrl_update
        (ctrl_out (ballast_ctrl_update (ballast_ctrl_set_target ballast_ctrl_init 50) 1000)) 4000000)) = 0
   \<and> last_update_ms (ctrl_out (ballast_ctrl_update
        (ctrl_out (ballast_ctrl_update (ballast_ctrl_set_target ballast_ctrl_init 50) 1000)) 4000000))
       = 4000000"
proof -
  let ?c0 = "ballast_ctrl_set_target ballast_ctrl_init 50"
  have r: "?c0 \<in> ballast_reachable"
    by (intro ballast_reachable.b_set_target ballast_reachable.b_init)
  have i: "ballast_state ?c0 = BALLAST_STATE_IDLE"
    by (simp add: ballast_ctrl_set_target_def ballast_ctrl_init_def)
  have f: "ballast_state (ctrl_out (ballast_ctrl_update ?c0 1000)) = BALLAST_STATE_FILLING"
    by (simp add: ballast_ctrl_update_def ballast_ctrl_set_target_def ballast_ctrl_init_def
        clamp_i8_def ctrl_out_def BALLAST_LEVEL_TOLERANCE_def)
  have x: "current_level_x1000 (ctrl_out (ballast_ctrl_update ?c0 1000)) = 0"
    by (simp add: ballast_ctrl_update_def ballast_ctrl_set_target_def ballast_ctrl_init_def
        clamp_i8_def ctrl_out_def BALLAST_LEVEL_TOLERANCE_def)
  from ballast_no_stale_timestamp [OF r, of 1000 80 1 4000000] i f x r
  show ?thesis by simp
qed

section \<open>Properties: safety monitor and emergency blow\<close>

subsection \<open>What each check changes\<close>

lemmas fault_bits = signal_lost_def low_battery_def leak_def depth_exceeded_def
  pitch_exceeded_def core1_stall_def

lemmas bit_upd = bit_set_bit_iff bit_unset_bit_iff

lemma log_event_call_simps:
  "g_faults (log_event_call s c p1 p2) = g_faults s"
  "g_emergency (log_event_call s c p1 p2) = g_emergency s"
  "blow_calls (log_event_call s c p1 p2) = blow_calls s"
  "watchdog_updates (log_event_call s c p1 p2) = watchdog_updates s"
  "s_last_heartbeat (log_event_call s c p1 p2) = s_last_heartbeat s"
  "s_stall_count (log_event_call s c p1 p2) = s_stall_count s"
  "g_last_rc_valid_ms (log_event_call s c p1 p2) = g_last_rc_valid_ms s"
  "g_current_depth_cm (log_event_call s c p1 p2) = g_current_depth_cm s"
  "g_current_pitch_x10 (log_event_call s c p1 p2) = g_current_pitch_x10 s"
  by (simp_all add: log_event_call_def)

lemma trigger_emergency_blow_simps:
  "g_faults (trigger_emergency_blow s r) = g_faults s"
  "g_emergency (trigger_emergency_blow s r) = g_emergency s"
  "blow_calls (trigger_emergency_blow s r) = blow_calls s @ [r]"
  "watchdog_updates (trigger_emergency_blow s r) = watchdog_updates s"
  "s_last_heartbeat (trigger_emergency_blow s r) = s_last_heartbeat s"
  "s_stall_count (trigger_emergency_blow s r) = s_stall_count s"
  by (simp_all add: trigger_emergency_blow_def log_event_call_def)

lemma check_rc_signal_simps:
  "g_emergency (check_rc_signal s now) = g_emergency s"
  "blow_calls (check_rc_signal s now) = blow_calls s"
  "watchdog_updates (check_rc_signal s now) = watchdog_updates s"
  "s_last_heartbeat (check_rc_signal s now) = s_last_heartbeat s"
  "s_stall_count (check_rc_signal s now) = s_stall_count s"
  "g_current_depth_cm (check_rc_signal s now) = g_current_depth_cm s"
  "g_current_pitch_x10 (check_rc_signal s now) = g_current_pitch_x10 s"
  by (simp_all add: check_rc_signal_def log_event_call_def)

lemma check_rc_signal_bits:
  "bit (g_faults (check_rc_signal s now)) n =
     (if n = signal_lost then now - g_last_rc_valid_ms s > SIGNAL_TIMEOUT_MS
      else bit (g_faults s) n)"
  by (auto simp: check_rc_signal_def log_event_call_def bit_upd fault_bits)

lemma check_battery_simps:
  "g_emergency (check_battery s mv) = g_emergency s"
  "blow_calls (check_battery s mv) = blow_calls s"
  "watchdog_updates (check_battery s mv) = watchdog_updates s"
  "s_last_heartbeat (check_battery s mv) = s_last_heartbeat s"
  "s_stall_count (check_battery s mv) = s_stall_count s"
  "g_current_depth_cm (check_battery s mv) = g_current_depth_cm s"
  "g_current_pitch_x10 (check_battery s mv) = g_current_pitch_x10 s"
  by (simp_all add: check_battery_def log_event_call_def)

lemma check_battery_bits:
  "bit (g_faults (check_battery s mv)) n =
     (bit (g_faults s) n \<or> n = low_battery \<and> mv < MIN_BATTERY_MV)"
  by (auto simp: check_battery_def log_event_call_def bit_upd fault_bits)

lemma check_sensors_simps:
  "g_emergency (check_sensors s l) = g_emergency s"
  "blow_calls (check_sensors s l) = blow_calls s"
  "watchdog_updates (check_sensors s l) = watchdog_updates s"
  "s_last_heartbeat (check_sensors s l) = s_last_heartbeat s"
  "s_stall_count (check_sensors s l) = s_stall_count s"
  by (simp_all add: check_sensors_def log_event_call_def Let_def)

lemma check_sensors_bits:
  "bit (g_faults (check_sensors s l)) n =
     (bit (g_faults s) n
      \<or> n = leak \<and> l
      \<or> n = depth_exceeded \<and> sint (g_current_depth_cm s) > MAX_DEPTH_CM
      \<or> n = pitch_exceeded \<and> \<bar>sint (g_current_pitch_x10 s) sdiv 10\<bar> > MAX_PITCH_DEG)"
  by (auto simp: check_sensors_def log_event_call_def Let_def bit_upd fault_bits)

lemma check_core1_health_simps:
  "g_emergency (check_core1_health s hb) = g_emergency s"
  "watchdog_updates (check_core1_health s hb) = watchdog_updates s"
  "blow_calls (check_core1_health s hb) =
     blow_calls s @ (if core1_stall_rises s hb then [EVT_CORE1_STALL] else [])"
  by (simp_all add: check_core1_health_def core1_stall_rises_def trigger_emergency_blow_def
      log_event_call_def Let_def)

lemma check_core1_health_bits:
  "bit (g_faults (check_core1_health s hb)) n =
     (if n = core1_stall
      then hb = s_last_heartbeat s
           \<and> (bit (g_faults s) core1_stall \<or> s_stall_count s + 1 > CORE1_STALL_THRESHOLD)
      else bit (g_faults s) n)"
  by (auto simp: check_core1_health_def trigger_emergency_blow_def log_event_call_def Let_def
      bit_upd fault_bits)

lemma update_heartbeat_led_simps:
  "g_faults (update_heartbeat_led s now) = g_faults s"
  "g_emergency (update_heartbeat_led s now) = g_emergency s"
  "blow_calls (update_heartbeat_led s now) = blow_calls s"
  "watchdog_updates (update_heartbeat_led s now) = watchdog_updates s"
  by (simp_all add: update_heartbeat_led_def Let_def)

lemma watchdog_update_simps:
  "g_faults (watchdog_update s) = g_faults s"
  "g_emergency (watchdog_update s) = g_emergency s"
  "blow_calls (watchdog_update s) = blow_calls s"
  "watchdog_updates (watchdog_update s) = Suc (watchdog_updates s)"
  "s_last_heartbeat (watchdog_update s) = s_last_heartbeat s"
  "s_stall_count (watchdog_update s) = s_stall_count s"
  "g_last_rc_valid_ms (watchdog_update s) = g_last_rc_valid_ms s"
  "g_current_depth_cm (watchdog_update s) = g_current_depth_cm s"
  "g_current_pitch_x10 (watchdog_update s) = g_current_pitch_x10 s"
  by (simp_all add: watchdog_update_def)

lemma critical_fault_bits:
  "critical_fault w =
     (bit w signal_lost \<or> bit w low_battery \<or> bit w leak \<or> bit w depth_exceeded
      \<or> bit w pitch_exceeded \<or> bit w core1_stall)"
proof -
  have m: "(0x011F::16 word) = 2^0 OR 2^1 OR 2^2 OR 2^3 OR 2^4 OR 2^8" by simp
  show ?thesis
    unfolding critical_fault_def critical_mask_def fault_bits m
    by (simp only: bit.conj_disj_distrib or_eq_0_iff and_exp_eq_0_iff_not_bit de_Morgan_conj not_not)
qed

lemma check_all_simps:
  "g_emergency (check_all s i) = g_emergency s"
  "watchdog_updates (check_all s i) = watchdog_updates s"
  by (simp_all add: check_all_def check_core1_health_simps check_sensors_simps
      check_battery_simps check_rc_signal_simps)

lemma core1_stall_rises_frame:
  "core1_stall_rises
     (check_sensors (check_battery (check_rc_signal s now) mv) l) hb = core1_stall_rises s hb"
  by (simp add: core1_stall_rises_def check_sensors_simps check_battery_simps
      check_rc_signal_simps check_sensors_bits check_battery_bits check_rc_signal_bits fault_bits)

lemma check_all_blow_calls:
  "blow_calls (check_all s i) =
     blow_calls s @ (if core1_stall_rises s (g_core1_heartbeat i) then [EVT_CORE1_STALL] else [])"
  by (simp add: check_all_def check_core1_health_simps core1_stall_rises_frame
      check_sensors_simps check_battery_simps check_rc_signal_simps)

lemma core1_stall_rises_watchdog:
  "core1_stall_rises (watchdog_update s) hb = core1_stall_rises s hb"
  by (simp add: core1_stall_rises_def watchdog_update_simps)

lemma safety_monitor_run_faults:
  "g_faults (safety_monitor_run s i) = g_faults (check_all (watchdog_update s) i)"
  by (simp add: safety_monitor_run_def Let_def update_heartbeat_led_simps
      trigger_emergency_blow_simps)

lemma safety_monitor_run_watchdog:
  "watchdog_updates (safety_monitor_run s i) = Suc (watchdog_updates s)"
  by (simp add: safety_monitor_run_def Let_def update_heartbeat_led_simps
      trigger_emergency_blow_simps check_all_simps watchdog_update_simps)

lemma safety_monitor_run_emergency:
  "g_emergency (safety_monitor_run s i) =
     (g_emergency s \<or> critical_fault (g_faults (safety_monitor_run s i)))"
  by (auto simp: safety_monitor_run_def Let_def update_heartbeat_led_simps
      trigger_emergency_blow_simps check_all_simps watchdog_update_simps critical_fault_def)

lemma safety_monitor_run_blow_calls:
  "blow_calls (safety_monitor_run s i) =
     blow_calls s
     @ (if core1_stall_rises s (g_core1_heartbeat i) then [EVT_CORE1_STALL] else [])
     @ (if critical_fault (g_faults (safety_monitor_run s i)) \<and> \<not> g_emergency s
        then [EVT_EMERGENCY_BLOW] else [])"
  by (simp add: safety_monitor_run_def Let_def update_heartbeat_led_simps
      trigger_emergency_blow_simps check_all_simps check_all_blow_calls watchdog_update_simps
      core1_stall_rises_watchdog critical_fault_def)

lemma safety_monitor_run_bits:
  "bit (g_faults (safety_monitor_run s i)) n =
     (if n = signal_lost then clock_ms i - g_last_rc_valid_ms s > SIGNAL_TIMEOUT_MS
      else if n = core1_stall
      then g_core1_heartbeat i = s_last_heartbeat s
           \<and> (bit (g_faults s) core1_stall \<or> s_stall_count s + 1 > CORE1_STALL_THRESHOLD)
      else (bit (g_faults s) n
            \<or> n = low_battery \<and> batt_mv i < MIN_BATTERY_MV
            \<or> n = leak \<and> leak_reading i
            \<or> n = depth_exceeded \<and> sint (g_current_depth_cm s) > MAX_DEPTH_CM
            \<or> n = pitch_exceeded \<and> \<bar>sint (g_current_pitch_x10 s) sdiv 10\<bar> > MAX_PITCH_DEG))"
  by (auto simp: safety_monitor_run_faults check_all_def check_core1_health_bits
      check_sensors_bits check_battery_bits check_rc_signal_bits
      check_sensors_simps check_battery_simps check_rc_signal_simps watchdog_update_simps
      fault_bits)

subsection \<open>Worked runs\<close>

lemmas safety_defs = safety_boot_def safety_monitor_init_def safety_reset_state_def
  safety_monitor_run_def check_all_def check_core1_health_def check_sensors_def
  check_battery_def check_rc_signal_def update_heartbeat_led_def watchdog_update_def
  trigger_emergency_blow_def log_event_call_def critical_mask_def quiet_tick_def leak_tick_def
  SIGNAL_TIMEOUT_MS_def MAX_PITCH_DEG_def MIN_BATTERY_MV_def CORE1_STALL_THRESHOLD_def
  MAX_DEPTH_CM_def fault_bits Let_def

lemma safety_run_append: "safety_run s (es @ es') = safety_run (safety_run s es) es'"
  by (induction es arbitrary: s) simp_all

lemma stalled_run:
  "safety_run safety_boot stalled_ticks =
     \<lparr>g_faults = 256, g_emergency = True, g_last_rc_valid_ms = 0,
      g_current_depth_cm = 0, g_current_pitch_x10 = 0, s_last_heartbeat = 5,
      s_stall_count = 11, last_led_toggle_ms = 120, led_state = True,
      emergency_active = True, emergency_reason = EVT_EMERGENCY_BLOW,
      valve_opened = True, pump_speed = - 100, servo_rudder = 0,
      servo_bowplane = 100, servo_sternplane = 100, watchdog_enabled = True,
      watchdog_updates = 12,
      events_logged = [(EVT_CORE1_STALL, 0, 0), (EVT_CORE1_STALL, 0, 0), (EVT_EMERGENCY_BLOW, 0, 0)],
      blow_calls = [EVT_CORE1_STALL, EVT_EMERGENCY_BLOW]\<rparr>"
  by code_simp

lemma leak_run:
  "safety_run safety_boot [Tick (leak_tick 10 1)] =
     \<lparr>g_faults = 4, g_emergency = True, g_last_rc_valid_ms = 0,
      g_current_depth_cm = 0, g_current_pitch_x10 = 0, s_last_heartbeat = 1,
      s_stall_count = 0, last_led_toggle_ms = 0, led_state = False,
      emergency_active = True, emergency_reason = EVT_EMERGENCY_BLOW,
      valve_opened = True, pump_speed = - 100, servo_rudder = 0,
      servo_bowplane = 100, servo_sternplane = 100, watchdog_enabled = True,
      watchdog_updates = 1,
      events_logged = [(EVT_LEAK_DETECTED, 0, 0), (EVT_EMERGENCY_BLOW, 0, 0)],
      blow_calls = [EVT_EMERGENCY_BLOW]\<rparr>"
  by code_simp

subsection \<open>Watchdog feeding\<close>

text \<open>
  C1 as stated fails. The first pass reads a leak: the fault word becomes 4 and stays 4.
  The second pass starts and ends with that fault set, and still feeds the watchdog: the
  count of \<^verbatim>\<open>watchdog_update\<close> calls goes from 1 to 2.
\<close>

theorem watchdog_starvation_counterexample:
  "g_faults (safety_run safety_boot [Tick (leak_tick 10 1)]) = 4
   \<and> watchdog_updates (safety_run safety_boot [Tick (leak_tick 10 1)]) = 1
   \<and> g_faults (safety_monitor_run (safety_run safety_boot [Tick (leak_tick 10 1)])
                  (quiet_tick 20 2)) = 4
   \<and> watchdog_updates (safety_monitor_run (safety_run safety_boot [Tick (leak_tick 10 1)])
                  (quiet_tick 20 2)) = 2"
  unfolding leak_run by code_simp

text \<open>
  C1, amended. Every call of \<^verbatim>\<open>safety_monitor_run\<close> feeds the watchdog exactly once,
  whatever the fault flags are before or after the pass.
\<close>

theorem watchdog_fed_every_tick:
  "watchdog_updates (safety_monitor_run s i) = watchdog_updates s + 1"
  by (simp add: safety_monitor_run_watchdog)

subsection \<open>Calls of the emergency trigger\<close>

text \<open>
  C2 as stated fails. The heartbeat counter stops at 5. On the twelfth pass the stall
  count reaches 11: \<^verbatim>\<open>check_core1_health\<close> sets \<^verbatim>\<open>core1_stall\<close> and calls
  \<^verbatim>\<open>trigger_emergency_blow\<close>, and \<^verbatim>\<open>safety_monitor_run\<close>, finding a critical bit set and
  \<^verbatim>\<open>g_emergency\<close> still false, calls it again. Two calls in one run.
\<close>

theorem emergency_trigger_counterexample:
  "blow_calls (safety_run safety_boot stalled_ticks) = [EVT_CORE1_STALL, EVT_EMERGENCY_BLOW]
   \<and> length (blow_calls (safety_run safety_boot stalled_ticks)) = 2"
  unfolding stalled_run by simp

lemma safety_step_keeps_count:
  assumes "count_list (blow_calls s) EVT_EMERGENCY_BLOW = (if g_emergency s then 1 else 0)"
  shows "count_list (blow_calls (safety_step s e)) EVT_EMERGENCY_BLOW =
           (if g_emergency (safety_step s e) then 1 else 0)"
proof (cases e)
  case (Tick i)
  have e: "g_emergency (safety_monitor_run s i) =
             (g_emergency s \<or> critical_fault (g_faults (safety_monitor_run s i)))"
    by (rule safety_monitor_run_emergency)
  show ?thesis
    unfolding Tick safety_step.simps
    using assms e by (simp add: safety_monitor_run_blow_calls)
next
  case (UpdateRcTime ms)
  then show ?thesis using assms by (simp add: safety_update_rc_time_def)
next
  case (UpdateDepth d)
  then show ?thesis using assms by (simp add: safety_update_depth_def)
next
  case (UpdatePitch p)
  then show ?thesis using assms by (simp add: safety_update_pitch_def)
qed

lemma safety_run_keeps_count:
  "count_list (blow_calls s) EVT_EMERGENCY_BLOW = (if g_emergency s then 1 else 0) \<Longrightarrow>
   count_list (blow_calls (safety_run s es)) EVT_EMERGENCY_BLOW =
     (if g_emergency (safety_run s es) then 1 else 0)"
proof (induction es arbitrary: s)
  case Nil
  then show ?case by simp
next
  case (Cons e es)
  from Cons.prems have "count_list (blow_calls (safety_step s e)) EVT_EMERGENCY_BLOW =
           (if g_emergency (safety_step s e) then 1 else 0)"
    by (rule safety_step_keeps_count)
  then show ?case by (simp add: Cons.IH)
qed

lemma safety_boot_count:
  "count_list (blow_calls safety_boot) EVT_EMERGENCY_BLOW = (if g_emergency safety_boot then 1 else 0)"
  by (simp add: safety_boot_def safety_monitor_init_def safety_reset_state_def)

text \<open>
  C2, amended. In every pass, \<^verbatim>\<open>safety_monitor_run\<close> calls \<^verbatim>\<open>trigger_emergency_blow\<close>
  with reason \<^verbatim>\<open>EVT_CORE1_STALL\<close> (from \<^verbatim>\<open>check_core1_health\<close>) when \<^verbatim>\<open>core1_stall\<close>
  rises in that pass, and then with reason \<^verbatim>\<open>EVT_EMERGENCY_BLOW\<close> when the pass ends its
  checks with a critical fault bit set (signal\_lost, low\_battery, leak, depth\_exceeded,
  pitch\_exceeded or core1\_stall) and \<^verbatim>\<open>g_emergency\<close> was not yet set; it makes no
  other call. \<^verbatim>\<open>g_emergency\<close> is set from that pass on. So within one run, from
  \<^verbatim>\<open>safety_monitor_init\<close>, the call with reason \<^verbatim>\<open>EVT_EMERGENCY_BLOW\<close> is made exactly
  once if the emergency flag is set and never otherwise, on the first pass that observes
  a critical fault; the stall calls come on top of it.
\<close>

theorem aggregate_trigger_once:
  "blow_calls (safety_monitor_run s i) =
     blow_calls s
     @ (if core1_stall_rises s (g_core1_heartbeat i) then [EVT_CORE1_STALL] else [])
     @ (if critical_fault (g_faults (safety_monitor_run s i)) \<and> \<not> g_emergency s
        then [EVT_EMERGENCY_BLOW] else [])
   \<and> g_emergency (safety_monitor_run s i) =
       (g_emergency s \<or> critical_fault (g_faults (safety_monitor_run s i)))
   \<and> critical_fault w =
       (bit w signal_lost \<or> bit w low_battery \<or> bit w leak \<or> bit w depth_exceeded
        \<or> bit w pitch_exceeded \<or> bit w core1_stall)
   \<and> count_list (blow_calls (safety_run safety_boot es)) EVT_EMERGENCY_BLOW =
       (if g_emergency (safety_run safety_boot es) then 1 else 0)"
  using safety_monitor_run_blow_calls [of s i] safety_monitor_run_emergency [of s i]
    critical_fault_bits [of w] safety_run_keeps_count [OF safety_boot_count, of es]
  by (simp only: simp_thms)

theorem aggregate_trigger_once_witness:
  "blow_calls (safety_monitor_run safety_boot (leak_tick 10 1)) = [EVT_EMERGENCY_BLOW]
   \<and> g_emergency (safety_monitor_run safety_boot (leak_tick 10 1))
   \<and> count_list (blow_calls (safety_run safety_boot (stalled_ticks @ [Tick (leak_tick 130 5)])))
        EVT_EMERGENCY_BLOW = 1"
proof -
  have f: "g_faults (safety_monitor_run safety_boot (leak_tick 10 1)) = 4"
    using leak_run by simp
  have b: "blow_calls safety_boot = [] \<and> \<not> g_emergency safety_boot
           \<and> \<not> core1_stall_rises safety_boot (g_core1_heartbeat (leak_tick 10 1))"
    by (simp add: safety_defs core1_stall_rises_def)
  have c: "critical_fault (4::16 word)"
    by (simp add: critical_fault_def critical_mask_def)
  have e: "g_emergency (safety_run safety_boot (stalled_ticks @ [Tick (leak_tick 130 5)]))"
    unfolding safety_run_append stalled_run by code_simp
  from aggregate_trigger_once [of safety_boot "leak_tick 10 1" 4 "stalled_ticks @ [Tick (leak_tick 130 5)]"]
    f b c e
  show ?thesis by simp
qed

subsection \<open>Which fault flags persist\<close>

text \<open>
  C4 as stated fails for core1\_stall. After the twelve stalled passes the flag is set;
  one pass later, the heartbeat counter having moved to 6, it is clear again.
\<close>

theorem core1_stall_clears_counterexample:
  "bit (g_faults (safety_run safety_boot stalled_ticks)) core1_stall
   \<and> \<not> bit (g_faults (safety_monitor_run (safety_run safety_boot stalled_ticks)
                        (quiet_tick 130 6))) core1_stall"
  unfolding stalled_run by code_simp

lemma safety_step_set_only:
  assumes "n = low_battery \<or> n = leak \<or> n = depth_exceeded \<or> n = pitch_exceeded"
    and "bit (g_faults s) n"
  shows "bit (g_faults (safety_step s e)) n"
proof (cases e)
  case (Tick i)
  from assms show ?thesis
    unfolding Tick safety_step.simps safety_monitor_run_bits
    by (auto simp: fault_bits)
next
  case (UpdateRcTime ms)
  then show ?thesis using assms by (simp add: safety_update_rc_time_def)
next
  case (UpdateDepth d)
  then show ?thesis using assms by (simp add: safety_update_depth_def)
next
  case (UpdatePitch p)
  then show ?thesis using assms by (simp add: safety_update_pitch_def)
qed

lemma safety_run_set_only:
  "n = low_battery \<or> n = leak \<or> n = depth_exceeded \<or> n = pitch_exceeded \<Longrightarrow>
   bit (g_faults s) n \<Longrightarrow> bit (g_faults (safety_run s es)) n"
proof (induction es arbitrary: s)
  case Nil
  then show ?case by simp
next
  case (Cons e es)
  from Cons.prems have "bit (g_faults (safety_step s e)) n"
    by (rule safety_step_set_only)
  with Cons.prems(1) show ?case by (simp add: Cons.IH)
qed

text \<open>
  C4, amended. The flags low\_battery, leak, depth\_exceeded and pitch\_exceeded, once
  set, stay set through every later pass of \<^verbatim>\<open>safety_monitor_run\<close> and every store by
  core 1, whatever the readings. signal\_lost follows its condition: after a pass it is set
  exactly when the time since the last valid command exceeds the timeout. core1\_stall is
  cleared by a pass in which the heartbeat counter has moved, and kept by a pass in which
  it has not.
\<close>

theorem set_only_faults_persist:
  "((n = low_battery \<or> n = leak \<or> n = depth_exceeded \<or> n = pitch_exceeded)
      \<and> bit (g_faults s) n \<longrightarrow> bit (g_faults (safety_run s es)) n)
   \<and> bit (g_faults (safety_monitor_run s i)) signal_lost =
       (clock_ms i - g_last_rc_valid_ms s > SIGNAL_TIMEOUT_MS)
   \<and> (g_core1_heartbeat i \<noteq> s_last_heartbeat s \<longrightarrow>
        \<not> bit (g_faults (safety_monitor_run s i)) core1_stall)
   \<and> (g_core1_heartbeat i = s_last_heartbeat s \<and> bit (g_faults s) core1_stall \<longrightarrow>
        bit (g_faults (safety_monitor_run s i)) core1_stall)"
  using safety_run_set_only [of n s es]
  by (auto simp: safety_monitor_run_bits fault_bits)

theorem set_only_faults_persist_witness:
  "bit (g_faults (safety_run safety_boot [Tick (leak_tick 10 1)])) leak
   \<and> bit (g_faults (safety_run (safety_run safety_boot [Tick (leak_tick 10 1)])
            [Tick (quiet_tick 20 2), UpdateDepth 50, Tick (quiet_tick 30 3)])) leak
   \<and> \<not> bit (g_faults (safety_monitor_run (safety_run safety_boot [Tick (leak_tick 10 1)])
            (quiet_tick 20 2))) core1_stall
   \<and> bit (g_faults (safety_monitor_run (safety_run safety_boot stalled_ticks)
            (quiet_tick 130 5))) core1_stall"
proof -
  let ?s = "safety_run safety_boot [Tick (leak_tick 10 1)]"
  let ?t = "safety_run safety_boot stalled_ticks"
  have l: "bit (g_faults ?s) leak"
    unfolding leak_run by (simp add: leak_def)
  have h: "g_core1_heartbeat (quiet_tick 20 2) \<noteq> s_last_heartbeat ?s"
    unfolding leak_run by (simp add: quiet_tick_def)
  have k: "g_core1_heartbeat (quiet_tick 130 5) = s_last_heartbeat ?t \<and> bit (g_faults ?t) core1_stall"
    unfolding stalled_run by (simp add: quiet_tick_def core1_stall_def)
  from set_only_faults_persist [of leak ?s "[Tick (quiet_tick 20 2), UpdateDepth 50, Tick (quiet_tick 30 3)]"
      "quiet_tick 20 2"] l h
  have a: "bit (g_faults (safety_run ?s [Tick (quiet_tick 20 2), UpdateDepth 50, Tick (quiet_tick 30 3)])) leak
         \<and> \<not> bit (g_faults (safety_monitor_run ?s (quiet_tick 20 2))) core1_stall"
    by simp
  from set_only_faults_persist [of leak ?t "[]" "quiet_tick 130 5"] k
  have b: "bit (g_faults (safety_monitor_run ?t (quiet_tick 130 5))) core1_stall"
    by simp
  from l a b show ?thesis by simp
qed

end
